theory Spec2Isabelle
  imports Complex_Main "HOL-Library.AList"
begin

section \<open>Rootlink: a shallow embedding of the tunnel relay and its client\<close>

text \<open>
  The relay (\<^verbatim>\<open>server/index.js\<close>) and the client agent (\<^verbatim>\<open>client/index.js\<close>) are
  event-driven JavaScript programs. Every callback of the source becomes a function
  that takes the program state and returns the new one; what a callback writes to the
  outside (HTTP responses, WebSocket frames, console lines, timers) is recorded in the
  state. A Node buffer is a list of bytes, and a JavaScript string is kept as the
  UTF-8 encoding of its text (\<^typ>\<open>string\<close>); where the source or Node looks at code
  units, the model decodes. All patterns the source matches are ASCII, so matching on
  bytes and matching on code units agree.

  What comes from outside the two files is taken as follows. Identities handed out by
  the runtime (sockets, HTTP exchanges) and the result of \<^verbatim>\<open>uuidv4()\<close> are arguments
  of the events. \<^verbatim>\<open>JSON.stringify\<close> followed by \<^verbatim>\<open>JSON.parse\<close> returns the message it was
  given. Whether \<^verbatim>\<open>ws.send\<close> throws on the relay, what the JSON body parser does with
  a public request, whether \<^verbatim>\<open>new URL\<close> throws on the client, and how a call to the
  local service ends, are arguments too. Of Express (version 4) and Node the model
  has what decides whether the relay's \<^verbatim>\<open>res.setHeader\<close>, \<^verbatim>\<open>res.send\<close> and \<^verbatim>\<open>res.end\<close>
  throw: Node's checks of header names, header values and status codes, and the
  parsing of \<^verbatim>\<open>Content-Type\<close> that \<^verbatim>\<open>res.send\<close> does for a string. The headers that
  Express and \<^verbatim>\<open>cors()\<close> add to a response, and what Node puts on the wire for a
  \<^verbatim>\<open>HEAD\<close> request or a status that allows no body, are not modelled. Left out, since they only print or keep
  connections alive: the \<^verbatim>\<open>/health\<close> and \<^verbatim>\<open>/api/new\<close> routes, the ping timer with its
  \<^verbatim>\<open>pong\<close> bookkeeping, the \<^verbatim>\<open>'error'\<close> callbacks, and the client's banner.
\<close>

subsection \<open>JavaScript strings\<close>

type_synonym bytes = string

definition code :: "char \<Rightarrow> nat" where
  "code c = of_char c"

definition is_digit :: "char \<Rightarrow> bool" where
  "is_digit c = (48 \<le> code c \<and> code c \<le> 57)"

definition digit_value :: "char \<Rightarrow> nat" where
  "digit_value c = code c - 48"

text \<open>The regular-expression class \<^verbatim>\<open>\w\<close>: \<^verbatim>\<open>[A-Za-z0-9_]\<close>.\<close>

definition is_word :: "char \<Rightarrow> bool" where
  "is_word c =
     ((65 \<le> code c \<and> code c \<le> 90) \<or> (97 \<le> code c \<and> code c \<le> 122)
      \<or> is_digit c \<or> c = CHR ''_'')"

text \<open>
  \<^verbatim>\<open>String.prototype.toLowerCase\<close> and \<^verbatim>\<open>toUpperCase\<close> on the ASCII letters. The source
  only compares the results with ASCII text. Of the other characters just two lower to
  something with an ASCII letter in it, U+212A to \<^verbatim>\<open>k\<close> and U+0130 to \<^verbatim>\<open>i\<close> with a
  combining dot; the one comparison this could touch is that of a header name with
  \<^verbatim>\<open>keep-alive\<close>, and a name with a character outside ASCII is refused by
  \<^verbatim>\<open>res.setHeader\<close>, so that the header is left out either way. \<^verbatim>\<open>toUpperCase\<close> is
  applied to the method of a request, which Node's parser takes from a list of ASCII names.
\<close>

definition lower_char :: "char \<Rightarrow> char" where
  "lower_char c = (if 65 \<le> code c \<and> code c \<le> 90 then char_of (code c + 32) else c)"

definition toLowerCase :: "string \<Rightarrow> string" where
  "toLowerCase s = map lower_char s"

definition upper_char :: "char \<Rightarrow> char" where
  "upper_char c = (if 97 \<le> code c \<and> code c \<le> 122 then char_of (code c - 32) else c)"

definition toUpperCase :: "string \<Rightarrow> string" where
  "toUpperCase s = map upper_char s"

definition startsWith :: "string \<Rightarrow> string \<Rightarrow> bool" where
  "startsWith s p = (take (length p) s = p)"

text \<open>\<^verbatim>\<open>s.includes(p)\<close>: \<open>p\<close> occurs in \<open>s\<close> as a contiguous substring.\<close>

fun includes_str :: "string \<Rightarrow> string \<Rightarrow> bool" where
  "includes_str [] p = (p = [])"
| "includes_str (c # cs) p = (startsWith (c # cs) p \<or> includes_str cs p)"

text \<open>
  \<^verbatim>\<open>s.replace(p, '')\<close> with a string pattern: the first occurrence of \<open>p\<close> is removed.
\<close>

fun remove_first :: "string \<Rightarrow> string \<Rightarrow> string" where
  "remove_first [] p = []"
| "remove_first (c # cs) p =
     (if startsWith (c # cs) p then drop (length p) (c # cs) else c # remove_first cs p)"

definition dquote :: char where
  "dquote = CHR 0x22"

definition squote :: char where
  "squote = CHR 0x27"

definition newline :: char where
  "newline = CHR 0x0A"

subsection \<open>Text and bytes\<close>

text \<open>
  A JavaScript string is kept as the UTF-8 encoding of its text, so \<^verbatim>\<open>Buffer.from(s)\<close>
  and \<^verbatim>\<open>Buffer.byteLength(s)\<close> read the list as it is. \<^verbatim>\<open>buf.toString('utf8')\<close> decodes
  arbitrary bytes: a well-formed sequence gives its code point, and every maximal
  ill-formed part gives U+FFFD, as in the WHATWG decoder. \<open>Pending cp n lo hi\<close> is
  the decoder inside a sequence: the bits read so far, the number of bytes still
  needed, and the bounds of the next byte.
\<close>

definition utf8_encode :: "string \<Rightarrow> bytes" where
  "utf8_encode s = s"

datatype utf8_state = Idle | Pending int nat int int

definition lead_byte :: "int \<Rightarrow> int list \<times> utf8_state" where
  "lead_byte b =
     (if b < 0x80 then ([b], Idle)
      else if 0xC2 \<le> b \<and> b \<le> 0xDF then ([], Pending (b mod 32) 1 0x80 0xBF)
      else if b = 0xE0 then ([], Pending (b mod 16) 2 0xA0 0xBF)
      else if b = 0xED then ([], Pending (b mod 16) 2 0x80 0x9F)
      else if 0xE1 \<le> b \<and> b \<le> 0xEF then ([], Pending (b mod 16) 2 0x80 0xBF)
      else if b = 0xF0 then ([], Pending (b mod 8) 3 0x90 0xBF)
      else if b = 0xF4 then ([], Pending (b mod 8) 3 0x80 0x8F)
      else if 0xF1 \<le> b \<and> b \<le> 0xF3 then ([], Pending (b mod 8) 3 0x80 0xBF)
      else ([0xFFFD], Idle))"

fun decode_from :: "utf8_state \<Rightarrow> bytes \<Rightarrow> int list" where
  "decode_from Idle [] = []"
| "decode_from (Pending cp n lo hi) [] = [0xFFFD]"
| "decode_from Idle (c # cs) =
     (case lead_byte (int (code c)) of (out, st) \<Rightarrow> out @ decode_from st cs)"
| "decode_from (Pending cp n lo hi) (c # cs) =
     (if lo \<le> int (code c) \<and> int (code c) \<le> hi then
        (if n \<le> 1 then (cp * 64 + int (code c) mod 64) # decode_from Idle cs
         else decode_from (Pending (cp * 64 + int (code c) mod 64) (n - 1) 0x80 0xBF) cs)
      else (case lead_byte (int (code c)) of (out, st) \<Rightarrow> 0xFFFD # out @ decode_from st cs))"

text \<open>The code points of the text that a string or a buffer holds.\<close>

definition code_points :: "bytes \<Rightarrow> int list" where
  "code_points b = decode_from Idle b"

definition byte :: "int \<Rightarrow> char" where
  "byte n = char_of (nat n)"

definition encode_point :: "int \<Rightarrow> bytes" where
  "encode_point cp =
     (if cp < 0x80 then [byte cp]
      else if cp < 0x800 then [byte (0xC0 + cp div 64), byte (0x80 + cp mod 64)]
      else if cp < 0x10000 then
        [byte (0xE0 + cp div 4096), byte (0x80 + cp div 64 mod 64), byte (0x80 + cp mod 64)]
      else
        [byte (0xF0 + cp div 262144), byte (0x80 + cp div 4096 mod 64),
         byte (0x80 + cp div 64 mod 64), byte (0x80 + cp mod 64)])"

definition utf8_decode :: "bytes \<Rightarrow> string" where
  "utf8_decode b = concat (map encode_point (code_points b))"

text \<open>
  The UTF-16 code units of a string, which is what \<^verbatim>\<open>charCodeAt\<close>, Node's header
  checks and its base64 decoder see.
\<close>

definition utf16_units :: "int \<Rightarrow> int list" where
  "utf16_units cp =
     (if cp < 0x10000 then [cp]
      else [0xD800 + (cp - 0x10000) div 1024, 0xDC00 + (cp - 0x10000) mod 1024])"

definition code_units :: "string \<Rightarrow> int list" where
  "code_units s = concat (map utf16_units (code_points s))"

subsection \<open>Base64 as Node's \<^verbatim>\<open>Buffer\<close> implements it\<close>

text \<open>
  \<^verbatim>\<open>buf.toString('base64')\<close>: the standard alphabet, with \<^verbatim>\<open>=\<close> padding.
\<close>

definition enc_char :: "nat \<Rightarrow> char" where
  "enc_char n =
     (if n < 26 then char_of (65 + n)
      else if n < 52 then char_of (71 + n)
      else if n < 62 then char_of (n - 4)
      else if n = 62 then CHR ''+'' else CHR ''/'')"

fun toBase64 :: "bytes \<Rightarrow> string" where
  "toBase64 [] = []"
| "toBase64 [a] =
     [enc_char (code a div 4), enc_char (code a mod 4 * 16), CHR ''='', CHR ''='']"
| "toBase64 [a, b] =
     [enc_char (code a div 4), enc_char (code a mod 4 * 16 + code b div 16),
      enc_char (code b mod 16 * 4), CHR ''='']"
| "toBase64 (a # b # c # rest) =
     [enc_char (code a div 4), enc_char (code a mod 4 * 16 + code b div 16),
      enc_char (code b mod 16 * 4 + code c div 64), enc_char (code c mod 64)]
     @ toBase64 rest"

text \<open>
  \<^verbatim>\<open>Buffer.from(s, 'base64')\<close> is forgiving: it accepts the URL-safe alphabet as well,
  skips every character outside the alphabets, stops at the first \<^verbatim>\<open>=\<close>, and drops
  a trailing group that does not fill a byte. Node's decoder looks at the low byte of
  each code unit of the string (\<open>low_bytes\<close>), so that a character beyond U+00FF
  counts as the ASCII character with the same low byte.
\<close>

definition dec_char :: "char \<Rightarrow> nat option" where
  "dec_char c =
     (if 65 \<le> code c \<and> code c \<le> 90 then Some (code c - 65)
      else if 97 \<le> code c \<and> code c \<le> 122 then Some (code c - 71)
      else if 48 \<le> code c \<and> code c \<le> 57 then Some (code c + 4)
      else if c = CHR ''+'' \<or> c = CHR ''-'' then Some 62
      else if c = CHR ''/'' \<or> c = CHR ''_'' then Some 63
      else None)"

fun sextets_to_bytes :: "nat list \<Rightarrow> bytes" where
  "sextets_to_bytes (a # b # c # d # rest) =
     [char_of (a * 4 + b div 16), char_of (b mod 16 * 16 + c div 4), char_of (c mod 4 * 64 + d)]
     @ sextets_to_bytes rest"
| "sextets_to_bytes [a, b, c] =
     [char_of (a * 4 + b div 16), char_of (b mod 16 * 16 + c div 4)]"
| "sextets_to_bytes [a, b] = [char_of (a * 4 + b div 16)]"
| "sextets_to_bytes _ = []"

definition low_bytes :: "string \<Rightarrow> bytes" where
  "low_bytes s = map (\<lambda>u. byte (u mod 256)) (code_units s)"

definition fromBase64 :: "string \<Rightarrow> bytes" where
  "fromBase64 s =
     sextets_to_bytes
       (List.map_filter dec_char (takeWhile (\<lambda>c. c \<noteq> CHR ''='') (low_bytes s)))"

subsection \<open>Relay: the HTML path rewriter\<close>

text \<open>
  \<^verbatim>\<open>String.prototype.replace(regexp, template)\<close>. A matcher stands for a regular
  expression: applied to the text from some position on, it tells whether the
  expression matches there, and then the length of the match and the capture groups.
  \<open>getSubstitution\<close> expands the template as ECMAScript does (\<^verbatim>\<open>$$\<close>, \<^verbatim>\<open>$&\<close>,
  \<^verbatim>\<open>$`\<close>, \<^verbatim>\<open>$'\<close>, \<^verbatim>\<open>$n\<close>, \<^verbatim>\<open>$nn\<close>; there are no named groups, so \<^verbatim>\<open>$<\<close> is literal).
\<close>

type_synonym matcher = "string \<Rightarrow> (nat \<times> string list) option"

fun getSubstitution :: "string \<Rightarrow> string \<Rightarrow> string \<Rightarrow> string list \<Rightarrow> string \<Rightarrow> string" where
  "getSubstitution matched pre post caps [] = []"
| "getSubstitution matched pre post caps [c] = [c]"
| "getSubstitution matched pre post caps (c # d # t) =
     (if c \<noteq> CHR ''$'' then c # getSubstitution matched pre post caps (d # t)
      else if d = CHR ''$'' then CHR ''$'' # getSubstitution matched pre post caps t
      else if d = CHR ''&'' then matched @ getSubstitution matched pre post caps t
      else if d = CHR 0x60 then pre @ getSubstitution matched pre post caps t
      else if d = CHR 0x27 then post @ getSubstitution matched pre post caps t
      else if is_digit d then
        (case t of
           e # u \<Rightarrow>
             if is_digit e \<and> 10 * digit_value d + digit_value e \<le> length caps then
               (if 10 * digit_value d + digit_value e = 0
                then CHR ''$'' # d # e # getSubstitution matched pre post caps u
                else caps ! (10 * digit_value d + digit_value e - 1)
                       @ getSubstitution matched pre post caps u)
             else if 1 \<le> digit_value d \<and> digit_value d \<le> length caps
             then caps ! (digit_value d - 1) @ getSubstitution matched pre post caps t
             else CHR ''$'' # d # getSubstitution matched pre post caps t
         | [] \<Rightarrow>
             if 1 \<le> digit_value d \<and> digit_value d \<le> length caps
             then caps ! (digit_value d - 1)
             else [CHR ''$'', d])
      else CHR ''$'' # getSubstitution matched pre post caps (d # t))"

text \<open>
  The scan of \<open>replace\<close>: \<open>pre\<close> is the part of the input already passed. At each
  position the matcher is tried; on a match the expanded template is emitted and,
  for a global expression, the scan goes on behind the match; otherwise the character
  is copied. (An empty match, which none of the expressions below can produce, makes
  the scan copy one character and go on, as ECMAScript's \<open>lastIndex\<close> rule does.)
\<close>

fun replace_from :: "matcher \<Rightarrow> bool \<Rightarrow> string \<Rightarrow> string \<Rightarrow> string \<Rightarrow> string" where
  "replace_from m global template pre [] = []"
| "replace_from m global template pre (c # cs) =
     (case m (c # cs) of
        None \<Rightarrow> c # replace_from m global template (pre @ [c]) cs
      | Some (n, caps) \<Rightarrow>
          if n = 0 then
            getSubstitution [] pre (c # cs) caps template
              @ c # (if global then replace_from m global template (pre @ [c]) cs else cs)
          else
            getSubstitution (take n (c # cs)) pre (drop n (c # cs)) caps template
              @ (if global
                 then replace_from m global template (pre @ take n (c # cs)) (drop (n - 1) cs)
                 else drop (n - 1) cs))"

definition replace :: "matcher \<Rightarrow> bool \<Rightarrow> string \<Rightarrow> string \<Rightarrow> string" where
  "replace m global template s = replace_from m global template [] s"

text \<open>
  \<^verbatim>\<open>(?:src|href|action|content|data-[\w-]+)\<close>: the alternatives begin with different
  letters, so at most one of them can match at a position; \<^verbatim>\<open>[\w-]+\<close> is greedy and
  the next character of the expression, \<^verbatim>\<open>=\<close>, is outside the class, so giving
  characters back never helps.
\<close>

definition attr_name_length :: "string \<Rightarrow> nat option" where
  "attr_name_length s =
     (if startsWith s ''src'' then Some 3
      else if startsWith s ''href'' then Some 4
      else if startsWith s ''action'' then Some 6
      else if startsWith s ''content'' then Some 7
      else if startsWith s ''data-'' then
        (let k = length (takeWhile (\<lambda>c. is_word c \<or> c = CHR ''-'') (drop 5 s))
         in if k = 0 then None else Some (5 + k))
      else None)"

text \<open>\<^verbatim>\<open>/((?:src|href|action|content|data-[\w-]+)=["'])\/(?!\/)/\<close>\<close>

definition match_attr :: matcher where
  "match_attr s =
     (case attr_name_length s of
        None \<Rightarrow> None
      | Some n \<Rightarrow>
          (case drop n s of
             e # q # sl # rest \<Rightarrow>
               if e = CHR ''='' \<and> (q = dquote \<or> q = squote) \<and> sl = CHR ''/''
                  \<and> \<not> startsWith rest ''/''
               then Some (n + 3, [take (n + 2) s]) else None
           | _ \<Rightarrow> None))"

text \<open>
  \<^verbatim>\<open>/url\(["']?\/(?!\/)/\<close>: no capture group. When a quote follows \<^verbatim>\<open>url(\<close> it is
  consumed by \<^verbatim>\<open>["']?\<close>; giving it back cannot help, since \<^verbatim>\<open>\/\<close> would then face
  the quote.
\<close>

definition match_url :: matcher where
  "match_url s =
     (if startsWith s ''url('' then
        (let k = (if startsWith (drop 4 s) [dquote] \<or> startsWith (drop 4 s) [squote]
                  then 1 else 0 :: nat)
         in case drop (4 + k) s of
              sl # rest \<Rightarrow>
                if sl = CHR ''/'' \<and> \<not> startsWith rest ''/'' then Some (5 + k, []) else None
            | [] \<Rightarrow> None)
      else None)"

text \<open>
  \<^verbatim>\<open>/(<head[^>]*>)/i\<close>: \<^verbatim>\<open>[^>]*\<close> runs to the first \<^verbatim>\<open>>\<close>, which must exist.
\<close>

definition match_head :: matcher where
  "match_head s =
     (if toLowerCase (take 5 s) = ''<head'' then
        (let k = length (takeWhile (\<lambda>c. c \<noteq> CHR ''>'') (drop 5 s))
         in if 5 + k < length s then Some (6 + k, [take (6 + k) s]) else None)
      else None)"

text \<open>
  \<^verbatim>\<open>function rewriteHtml(html, tunnelId)\<close>: three replacements in sequence, the first
  two global, the third on the first match only.
\<close>

definition rewriteHtml :: "string \<Rightarrow> string \<Rightarrow> string" where
  "rewriteHtml html tunnelId =
     (let base = ''/t/'' @ tunnelId;
          html1 = replace match_attr True (''$1'' @ base @ ''/'') html;
          html2 = replace match_url True (''url('' @ base @ ''/'') html1;
          html3 = replace match_head False
                    (''$1'' @ [newline] @ ''  <base href='' @ [dquote] @ base @ ''/'' @ [dquote] @ ''>'')
                    html2
      in html3)"

text \<open>The element the third replacement puts behind the tag it matches.\<close>

definition base_element :: "string \<Rightarrow> string" where
  "base_element tunnelId =
     [newline] @ ''  <base href='' @ [dquote] @ ''/t/'' @ tunnelId @ ''/'' @ [dquote] @ ''>''"

text \<open>The expression of matcher \<open>m\<close> matches nowhere in \<open>s\<close>.\<close>

definition matches_nowhere :: "matcher \<Rightarrow> string \<Rightarrow> bool" where
  "matches_nowhere m s = (\<forall>i<length s. m (drop i s) = None)"

subsection \<open>The message protocol\<close>

type_synonym tunnelId = string
type_synonym reqId = string

text \<open>
  Values of header fields, in HTTP and in the JSON of a message: a string, a list of
  strings (Node gives \<^verbatim>\<open>set-cookie\<close> as an array) or a number.
\<close>

datatype hval = HStr string | HList "string list" | HNum int

type_synonym headers = "(string \<times> hval) list"

text \<open>
  The \<^verbatim>\<open>body\<close> field of a message as \<^verbatim>\<open>JSON.parse\<close> may return it: absent or
  \<^verbatim>\<open>null\<close>, a string (base64 text when the sender follows the protocol), or a number.
\<close>

datatype body_field = BodyNull | BodyStr string | BodyNum int

text \<open>
  A parsed message, by its \<^verbatim>\<open>type\<close> field. \<^verbatim>\<open>JSON.stringify\<close> followed by
  \<^verbatim>\<open>JSON.parse\<close> is taken to return the fields it was given. \<open>Other\<close> is an
  object with any other \<^verbatim>\<open>type\<close>.
\<close>

datatype message =
    Connected tunnelId
  | Request reqId string string headers "string option"
  | Response reqId nat headers body_field
  | Other

text \<open>
  What a \<^verbatim>\<open>'message'\<close> event carries: data on which \<^verbatim>\<open>JSON.parse\<close> throws, the JSON
  text \<^verbatim>\<open>null\<close> (on which reading \<^verbatim>\<open>msg.type\<close> throws), or an object.
\<close>

datatype inbound = Unparseable | JsonNull | Json message

datatype js_error = SyntaxError | TypeError | RangeError | Error

subsection \<open>Relay: state\<close>

type_synonym socket = nat
type_synonym exchange = nat
type_synonym timer = nat
type_synonym addr = nat

datatype readyState = CONNECTING | OPEN | CLOSING | CLOSED

text \<open>What the relay writes to an HTTP exchange: the status given to \<^verbatim>\<open>res.status\<close>, the
  headers it has set itself with \<^verbatim>\<open>res.setHeader\<close>, and the body given to \<^verbatim>\<open>res.send\<close>
  (empty for \<^verbatim>\<open>res.end()\<close>). What Express and the middleware add to a response on their
  own (\<^verbatim>\<open>X-Powered-By\<close>, \<^verbatim>\<open>ETag\<close>, a charset, the CORS headers) is outside the model.\<close>

record http_response =
  hr_status :: nat
  hr_headers :: headers
  hr_body :: bytes

text \<open>\<^verbatim>\<open>{ res, tunnelId }\<close>, later given its \<^verbatim>\<open>timeout\<close>.\<close>

record pending =
  p_res :: exchange
  p_tunnelId :: tunnelId
  p_timeout :: "timer option"

text \<open>
  \<^verbatim>\<open>{ ws, pendingRequests: new Map() }\<close>. A JavaScript \<^verbatim>\<open>Map\<close> iterates in insertion
  order, so it is an association list: \<^verbatim>\<open>set\<close> is \<^const>\<open>AList.update\<close>, \<^verbatim>\<open>delete\<close> is
  \<^const>\<open>AList.delete\<close>, \<^verbatim>\<open>get\<close> is \<^const>\<open>map_of\<close>.
\<close>

record tunnel =
  t_ws :: socket
  pendingRequests :: "(reqId \<times> pending) list"

text \<open>The closure of the callback given to \<^verbatim>\<open>setTimeout\<close>, and its delay.\<close>

record armed =
  tm_tunnel :: addr
  tm_reqId :: reqId
  tm_res :: exchange
  tm_delay :: nat

text \<open>A request handler suspended at \<^verbatim>\<open>await new Promise(...)\<close>, with its variables.\<close>

record suspended =
  aw_tunnel :: addr
  aw_tunnelId :: tunnelId
  aw_reqId :: reqId

datatype console_line =
    TunnelConnected tunnelId
  | TunnelDisconnected tunnelId
  | WsMessageError js_error

text \<open>
  The relay. \<open>tunnels\<close> is the registry \<^verbatim>\<open>const tunnels = new Map()\<close>; its values are
  tunnel objects, which live in \<open>heap\<close> (\<open>next_addr\<close> is the next free address).
  \<open>closure\<close> gives, for a socket on which \<^verbatim>\<open>wss.on('connection')\<close> has registered its
  callbacks, the \<^verbatim>\<open>tunnelId\<close> they close over. \<open>timers\<close> are the armed timeouts.
  \<open>responses\<close>, \<open>wire\<close> and \<open>console\<close> record, oldest first, the HTTP responses
  written, the frames sent with \<^verbatim>\<open>ws.send\<close> and the console lines.
\<close>

record relay =
  tunnels :: "tunnelId \<rightharpoonup> addr"
  heap :: "addr \<Rightarrow> tunnel"
  next_addr :: addr
  readyState :: "socket \<Rightarrow> readyState"
  closure :: "socket \<rightharpoonup> tunnelId"
  timers :: "timer \<rightharpoonup> armed"
  next_timer :: timer
  awaiting :: "exchange \<rightharpoonup> suspended"
  responses :: "(exchange \<times> http_response) list"
  wire :: "(socket \<times> message) list"
  console :: "console_line list"

definition relay_init :: relay where
  "relay_init =
     \<lparr>tunnels = Map.empty, heap = (\<lambda>a. \<lparr>t_ws = 0, pendingRequests = []\<rparr>), next_addr = 0,
      readyState = (\<lambda>w. CONNECTING), closure = Map.empty, timers = Map.empty,
      next_timer = 0, awaiting = Map.empty, responses = [], wire = [], console = []\<rparr>"

definition respond :: "exchange \<Rightarrow> nat \<Rightarrow> headers \<Rightarrow> bytes \<Rightarrow> relay \<Rightarrow> relay" where
  "respond res st hs b s =
     s\<lparr>responses := responses s @ [(res, \<lparr>hr_status = st, hr_headers = hs, hr_body = b\<rparr>)]\<rparr>"

definition clearTimeout :: "timer option \<Rightarrow> relay \<Rightarrow> relay" where
  "clearTimeout t s = (case t of None \<Rightarrow> s | Some i \<Rightarrow> s\<lparr>timers := (timers s)(i := None)\<rparr>)"

definition pending_of :: "relay \<Rightarrow> addr \<Rightarrow> (reqId \<times> pending) list" where
  "pending_of s a = pendingRequests (heap s a)"

definition set_pending :: "addr \<Rightarrow> (reqId \<times> pending) list \<Rightarrow> relay \<Rightarrow> relay" where
  "set_pending a ps s = s\<lparr>heap := (heap s)(a := (heap s a)\<lparr>pendingRequests := ps\<rparr>)\<rparr>"

subsection \<open>Relay: REST API\<close>

text \<open>\<^verbatim>\<open>res.json({ tunnelId, connected: !!tunnels.get(tunnelId) })\<close>; every value of
  the registry is an object, hence truthy.\<close>

definition api_status :: "relay \<Rightarrow> tunnelId \<Rightarrow> tunnelId \<times> bool" where
  "api_status s tunnelId = (tunnelId, tunnels s tunnelId \<noteq> None)"

subsection \<open>Relay: the tunnel request handler\<close>

text \<open>The page sent with status 503; the dash in its title is U+2014.\<close>

definition offline_page :: "tunnelId \<Rightarrow> string" where
  \<open>offline_page tunnelId =
     ''<!DOCTYPE html>'' @ [newline] @
     ''<html>'' @ [newline] @
     ''  <head><title>Rootlink '' @ [CHR 0xE2, CHR 0x80, CHR 0x94] @ '' Tunnel Offline</title></head>'' @ [newline] @
     ''  <body style="background:#0c0c0c;color:#f0f0f0;font-family:system-ui;display:flex;align-items:center;justify-content:center;height:100vh;margin:0;flex-direction:column;gap:8px">'' @ [newline] @
     ''    <h2 style="margin:0;font-size:18px;font-weight:600">Tunnel Offline</h2>'' @ [newline] @
     ''    <p style="color:#888;margin:0;font-size:14px">Tunnel <code style="color:#4ade80">'' @ tunnelId @
     ''</code> is not connected.<br>Run the CLI client to activate it.</p>'' @ [newline] @
     ''  </body>'' @ [newline] @
     ''</html>''\<close>

text \<open>
  \<^verbatim>\<open>app.all('/t/:tunnelId*', async (req, res) => ...)\<close> up to its \<^verbatim>\<open>await\<close>: the
  offline answer, or \<^verbatim>\<open>const reqId = uuidv4()\<close> (the identifier drawn is an argument)
  and the wait for the request body, with \<open>tunnel\<close> kept in the handler's closure.
\<close>

definition tunnel_request :: "exchange \<Rightarrow> tunnelId \<Rightarrow> reqId \<Rightarrow> relay \<Rightarrow> relay" where
  "tunnel_request res tunnelId reqId s =
     (case tunnels s tunnelId of
        None \<Rightarrow> respond res 503 [] (offline_page tunnelId) s
      | Some a \<Rightarrow>
          if readyState s (t_ws (heap s a)) \<noteq> OPEN
          then respond res 503 [] (offline_page tunnelId) s
          else s\<lparr>awaiting := (awaiting s)(res \<mapsto>
                 \<lparr>aw_tunnel = a, aw_tunnelId = tunnelId, aw_reqId = reqId\<rparr>)\<rparr>)"

text \<open>
  Lines 12--13 install two middlewares, which Express runs before the route.
  \<^verbatim>\<open>cors()\<close> ends every request whose method, in upper case, is \<^verbatim>\<open>OPTIONS\<close> by itself:
  status 204, no body. \<^verbatim>\<open>express.json()\<close> acts on a request that has a body of type
  \<^verbatim>\<open>application/json\<close>; what it does is decided by the request's headers and bytes under
  rules that are not in the source, so the model is given the result: the request
  stream is left as it is (\<open>Untouched\<close>), or the body is read to its end and parsed
  (\<open>Consumed\<close>), or the body is refused and Express's error handler answers with the
  given status (400, 413 or 415) and page (\<open>Refused\<close>).
\<close>

datatype body_parser = Untouched | Consumed | Refused nat bytes

text \<open>
  A public request to \<^verbatim>\<open>/t/:tunnelId*\<close> from its arrival up to the handler's \<^verbatim>\<open>await\<close>.
  A handler that reaches the \<^verbatim>\<open>await\<close> on a stream already read to its end registers
  its \<^verbatim>\<open>'end'\<close> listener too late: the listener is never called, so the handler is not
  among the \<open>awaiting\<close>, which are the handlers that the end of their stream resumes.
\<close>

definition app_request ::
  "exchange \<Rightarrow> string \<Rightarrow> body_parser \<Rightarrow> tunnelId \<Rightarrow> reqId \<Rightarrow> relay \<Rightarrow> relay" where
  "app_request res meth parser tunnelId reqId s =
     (if toUpperCase meth = ''OPTIONS'' then respond res 204 [] [] s
      else case parser of
             Refused st page \<Rightarrow> respond res st [] page s
           | Untouched \<Rightarrow> tunnel_request res tunnelId reqId s
           | Consumed \<Rightarrow> (tunnel_request res tunnelId reqId s)\<lparr>awaiting := awaiting s\<rparr>)"

text \<open>The public request as the handler reads it.\<close>

record http_request =
  rq_method :: string
  rq_originalUrl :: string
  rq_headers :: headers
  rq_chunks :: "bytes list"

text \<open>\<^verbatim>\<open>chunks.length ? Buffer.concat(chunks).toString('base64') : null\<close>\<close>

definition encode_chunks :: "bytes list \<Rightarrow> string option" where
  "encode_chunks chunks = (if chunks = [] then None else Some (toBase64 (concat chunks)))"

text \<open>\<^verbatim>\<open>req.originalUrl.replace(`/t/${tunnelId}`, '') || '/'\<close>\<close>

definition rawPath :: "string \<Rightarrow> tunnelId \<Rightarrow> string" where
  "rawPath originalUrl tunnelId =
     (let p = remove_first originalUrl (''/t/'' @ tunnelId) in if p = [] then ''/'' else p)"

text \<open>
  The handler resumed by the \<^verbatim>\<open>'end'\<close> of the request stream, \<open>req\<close> being the request
  with the chunks its \<^verbatim>\<open>'data'\<close> listener has collected: the request message, the pending
  entry, the timer of 30000 ms, and \<^verbatim>\<open>tunnel.ws.send(message)\<close>, which may throw
  (\<open>send_throws\<close>). \<^verbatim>\<open>{ ...req.headers, host: undefined }\<close> loses \<^verbatim>\<open>host\<close> under
  \<^verbatim>\<open>JSON.stringify\<close>.
\<close>

definition tunnel_request_body :: "exchange \<Rightarrow> http_request \<Rightarrow> bool \<Rightarrow> relay \<Rightarrow> relay" where
  "tunnel_request_body res req send_throws s =
     (case awaiting s res of
        None \<Rightarrow> s
      | Some w \<Rightarrow>
          let a = aw_tunnel w; tunnelId = aw_tunnelId w; reqId = aw_reqId w;
              message = Request reqId (rq_method req) (rawPath (rq_originalUrl req) tunnelId)
                          (filter (\<lambda>(k, v). k \<noteq> ''host'') (rq_headers req))
                          (encode_chunks (rq_chunks req));
              s1 = s\<lparr>awaiting := (awaiting s)(res := None)\<rparr>;
              s2 = set_pending a
                     (AList.update reqId \<lparr>p_res = res, p_tunnelId = tunnelId, p_timeout = None\<rparr>
                        (pending_of s1 a)) s1;
              t = next_timer s2;
              s3 = s2\<lparr>timers := (timers s2)(t \<mapsto>
                        \<lparr>tm_tunnel = a, tm_reqId = reqId, tm_res = res, tm_delay = 30000\<rparr>),
                      next_timer := Suc t\<rparr>;
              s4 = set_pending a
                     (AList.update reqId \<lparr>p_res = res, p_tunnelId = tunnelId, p_timeout = Some t\<rparr>
                        (pending_of s3 a)) s3
          in if send_throws
             then respond res 502 [] ''Failed to forward request to tunnel client.''
                    (set_pending a (AList.delete reqId (pending_of s4 a)) (clearTimeout (Some t) s4))
             else s4\<lparr>wire := wire s4 @ [(t_ws (heap s4 a), message)]\<rparr>)"

text \<open>
  The callback of \<^verbatim>\<open>setTimeout(..., 30000)\<close>. A timer that has fired or was cleared is
  no longer in \<open>timers\<close>.
\<close>

definition timeout_fires :: "timer \<Rightarrow> relay \<Rightarrow> relay" where
  "timeout_fires t s =
     (case timers s t of
        None \<Rightarrow> s
      | Some c \<Rightarrow>
          let s1 = s\<lparr>timers := (timers s)(t := None)\<rparr> in
          if map_of (pending_of s1 (tm_tunnel c)) (tm_reqId c) \<noteq> None
          then respond (tm_res c) 504 [] ''Gateway Timeout''
                 (set_pending (tm_tunnel c)
                    (AList.delete (tm_reqId c) (pending_of s1 (tm_tunnel c))) s1)
          else s1)"

subsection \<open>Relay: the WebSocket server\<close>

text \<open>
  \<^verbatim>\<open>wss.on('connection', (ws, req) => ...)\<close>. \<open>tunnelId\<close> is
  \<^verbatim>\<open>url.searchParams.get('tunnelId')\<close>: \<open>None\<close> for \<^verbatim>\<open>null\<close>. \<^verbatim>\<open>!tunnelId\<close> holds
  for \<^verbatim>\<open>null\<close> and for the empty string; then \<^verbatim>\<open>ws.close(4000, ...)\<close> starts the
  closing handshake and no callback is registered.
\<close>

definition connection :: "socket \<Rightarrow> string option \<Rightarrow> relay \<Rightarrow> relay" where
  "connection w tunnelId s =
     (case tunnelId of
        None \<Rightarrow> s\<lparr>readyState := (readyState s)(w := CLOSING)\<rparr>
      | Some tid \<Rightarrow>
          if tid = [] then s\<lparr>readyState := (readyState s)(w := CLOSING)\<rparr>
          else s\<lparr>console := console s @ [TunnelConnected tid],
                 heap := (heap s)(next_addr s := \<lparr>t_ws = w, pendingRequests = []\<rparr>),
                 tunnels := (tunnels s)(tid \<mapsto> next_addr s),
                 next_addr := Suc (next_addr s),
                 wire := wire s @ [(w, Connected tid)],
                 closure := (closure s)(w \<mapsto> tid)\<rparr>)"

text \<open>\<^verbatim>\<open>const skipHeaders = new Set([...])\<close>\<close>

definition skipHeaders :: "string list" where
  "skipHeaders = [''transfer-encoding'', ''connection'', ''keep-alive'', ''content-length'']"

text \<open>
  \<^verbatim>\<open>res.setHeader(key, value)\<close>: Node keeps one value per lower-cased name. It throws
  when the name is not an HTTP token, or when the value, as a string (an array joined
  with commas), has a code unit other than a tab, \<^verbatim>\<open>0x20\<close>--\<^verbatim>\<open>0x7e\<close> and
  \<^verbatim>\<open>0x80\<close>--\<^verbatim>\<open>0xff\<close>.
\<close>

definition is_token :: "int \<Rightarrow> bool" where
  "is_token c =
     ((48 \<le> c \<and> c \<le> 57) \<or> (65 \<le> c \<and> c \<le> 90) \<or> (94 \<le> c \<and> c \<le> 122)
      \<or> c = 33 \<or> (35 \<le> c \<and> c \<le> 39) \<or> c = 42 \<or> c = 43 \<or> c = 45 \<or> c = 46
      \<or> c = 124 \<or> c = 126)"

definition valid_name :: "string \<Rightarrow> bool" where
  "valid_name key = (key \<noteq> [] \<and> list_all is_token (code_units key))"

definition valid_text :: "string \<Rightarrow> bool" where
  "valid_text v =
     list_all (\<lambda>c. c = 9 \<or> (32 \<le> c \<and> c \<le> 126) \<or> (128 \<le> c \<and> c \<le> 255)) (code_units v)"

definition valid_value :: "hval \<Rightarrow> bool" where
  "valid_value v =
     (case v of HStr x \<Rightarrow> valid_text x | HList xs \<Rightarrow> list_all valid_text xs | HNum n \<Rightarrow> True)"

definition setHeader :: "string \<Rightarrow> hval \<Rightarrow> headers \<Rightarrow> js_error + headers" where
  "setHeader key v hs =
     (if valid_name key \<and> valid_value v then Inr (AList.update (toLowerCase key) v hs)
      else Inl TypeError)"

text \<open>
  \<^verbatim>\<open>Object.entries(headers || {}).forEach(...)\<close>, with
  \<^verbatim>\<open>try { res.setHeader(key, value); } catch (_) { }\<close>: a header that Node refuses is
  left out.
\<close>

fun copy_headers :: "headers \<Rightarrow> headers \<Rightarrow> headers" where
  "copy_headers [] hs = hs"
| "copy_headers ((key, v) # rest) hs =
     copy_headers rest
       (if toLowerCase key \<notin> set skipHeaders
        then (case setHeader key v hs of Inl e \<Rightarrow> hs | Inr hs' \<Rightarrow> hs')
        else hs)"

text \<open>
  \<^verbatim>\<open>(headers?.['content-type'] || '').toLowerCase()\<close>: a number other than 0 and an
  array are truthy and have no \<^verbatim>\<open>toLowerCase\<close>, so the call throws a TypeError.
\<close>

definition contentType :: "headers \<Rightarrow> js_error + string" where
  "contentType hs =
     (case map_of hs ''content-type'' of
        None \<Rightarrow> Inr []
      | Some (HStr v) \<Rightarrow> Inr (toLowerCase v)
      | Some (HList vs) \<Rightarrow> Inl TypeError
      | Some (HNum n) \<Rightarrow> if n = 0 then Inr [] else Inl TypeError)"

subsection \<open>Relay: what Express does with a response\<close>

text \<open>
  Given a string, \<^verbatim>\<open>res.send\<close> (Express 4) adds \<^verbatim>\<open>charset=utf-8\<close> to a
  \<^verbatim>\<open>Content-Type\<close> header that is a non-empty string, for which it parses the header with
  the \<^verbatim>\<open>content-type\<close> package; that throws a TypeError unless the header is a media
  type, \<^verbatim>\<open>token/token\<close> with white space around it trimmed, followed by parameters
  \<^verbatim>\<open>; name = value\<close> up to its end, a value being a token or a quoted string.
  \<open>params\<close> reads the parameters from the first \<^verbatim>\<open>;\<close> on, one code unit at a time.
\<close>

definition is_space :: "int \<Rightarrow> bool" where
  "is_space c =
     ((9 \<le> c \<and> c \<le> 13) \<or> c = 0x20 \<or> c = 0xA0 \<or> c = 0x1680 \<or> (0x2000 \<le> c \<and> c \<le> 0x200A)
      \<or> c = 0x2028 \<or> c = 0x2029 \<or> c = 0x202F \<or> c = 0x205F \<or> c = 0x3000 \<or> c = 0xFEFF)"

definition trim :: "int list \<Rightarrow> int list" where
  "trim s = rev (dropWhile is_space (rev (dropWhile is_space s)))"

definition type_ok :: "int list \<Rightarrow> bool" where
  "type_ok t =
     (takeWhile is_token t \<noteq> []
      \<and> (case dropWhile is_token t of
           [] \<Rightarrow> False
         | c # sub \<Rightarrow> c = 47 \<and> sub \<noteq> [] \<and> list_all is_token sub))"

datatype param_state =
    NextParam | BeforeName | InName | AfterName | BeforeValue | InToken | InQuoted | Escaped
  | AfterValue

fun params :: "param_state \<Rightarrow> int list \<Rightarrow> bool" where
  "params st [] = (st = NextParam \<or> st = InToken \<or> st = AfterValue)"
| "params NextParam (c # cs) = (c = 59 \<and> params BeforeName cs)"
| "params BeforeName (c # cs) =
     (if c = 32 then params BeforeName cs else is_token c \<and> params InName cs)"
| "params InName (c # cs) =
     (if is_token c then params InName cs
      else if c = 32 then params AfterName cs
      else c = 61 \<and> params BeforeValue cs)"
| "params AfterName (c # cs) =
     (if c = 32 then params AfterName cs else c = 61 \<and> params BeforeValue cs)"
| "params BeforeValue (c # cs) =
     (if c = 32 then params BeforeValue cs
      else if c = 34 then params InQuoted cs
      else is_token c \<and> params InToken cs)"
| "params InToken (c # cs) =
     (if is_token c then params InToken cs
      else if c = 32 then params AfterValue cs
      else c = 59 \<and> params BeforeName cs)"
| "params InQuoted (c # cs) =
     (if c = 34 then params AfterValue cs
      else if c = 92 then params Escaped cs
      else (c = 11 \<or> c = 32 \<or> c = 33 \<or> (35 \<le> c \<and> c \<le> 91) \<or> (93 \<le> c \<and> c \<le> 126)
            \<or> (128 \<le> c \<and> c \<le> 255))
           \<and> params InQuoted cs)"
| "params Escaped (c # cs) = ((c = 11 \<or> (32 \<le> c \<and> c \<le> 255)) \<and> params InQuoted cs)"
| "params AfterValue (c # cs) =
     (if c = 32 then params AfterValue cs else c = 59 \<and> params BeforeName cs)"

definition media_type :: "string \<Rightarrow> bool" where
  "media_type v =
     (type_ok (trim (takeWhile (\<lambda>c. c \<noteq> 59) (code_units v)))
      \<and> params NextParam (dropWhile (\<lambda>c. c \<noteq> 59) (code_units v)))"

text \<open>
  Whether \<^verbatim>\<open>res.send\<close> can add the charset, given the headers set so far. A header that
  is missing, empty, a number or an array is not parsed.
\<close>

definition charset_ok :: "headers \<Rightarrow> bool" where
  "charset_ok hs =
     (case map_of hs ''content-type'' of
        Some (HStr v) \<Rightarrow> v = [] \<or> media_type v
      | _ \<Rightarrow> True)"

text \<open>
  \<^verbatim>\<open>res.status\<close> stores the code. It is Node that throws, when \<^verbatim>\<open>res.send\<close> or
  \<^verbatim>\<open>res.end\<close> writes the head: a RangeError for a code outside 100--999, an Error for
  a \<^verbatim>\<open>Trailer\<close> header on a response that is not chunked. What \<^verbatim>\<open>res.send\<close> writes is
  never chunked, since Express gives it a \<^verbatim>\<open>Content-Length\<close>; \<^verbatim>\<open>res.end()\<close> on its own
  makes a response with a \<^verbatim>\<open>Trailer\<close> header a chunked one, unless the status allows no
  body (1xx, 204, 304). This is for a public request made with HTTP/1.1 and a method
  other than \<^verbatim>\<open>HEAD\<close>. Nothing has been written to the exchange when either call throws.
\<close>

definition valid_status :: "nat \<Rightarrow> bool" where
  "valid_status st = (100 \<le> st \<and> st \<le> 999)"

definition has_trailer :: "headers \<Rightarrow> bool" where
  "has_trailer hs = (map_of hs ''trailer'' \<noteq> None)"

definition write_head :: "nat \<Rightarrow> headers \<Rightarrow> bool \<Rightarrow> js_error option" where
  "write_head st hs chunked =
     (if \<not> valid_status st then Some RangeError
      else if has_trailer hs \<and> \<not> chunked then Some Error
      else None)"

text \<open>\<^verbatim>\<open>res.end()\<close>\<close>

definition res_end :: "nat \<Rightarrow> headers \<Rightarrow> js_error + http_response" where
  "res_end st hs =
     (case write_head st hs (\<not> (st < 200 \<or> st = 204 \<or> st = 304)) of
        Some e \<Rightarrow> Inl e
      | None \<Rightarrow> Inr \<lparr>hr_status = st, hr_headers = hs, hr_body = []\<rparr>)"

text \<open>\<^verbatim>\<open>res.send(buf)\<close> with a buffer.\<close>

definition send :: "nat \<Rightarrow> headers \<Rightarrow> bytes \<Rightarrow> js_error + http_response" where
  "send st hs b =
     (case write_head st hs False of
        Some e \<Rightarrow> Inl e
      | None \<Rightarrow> Inr \<lparr>hr_status = st, hr_headers = hs, hr_body = b\<rparr>)"

text \<open>\<^verbatim>\<open>res.send(text)\<close> with a string.\<close>

definition send_text :: "nat \<Rightarrow> headers \<Rightarrow> string \<Rightarrow> js_error + http_response" where
  "send_text st hs t = (if charset_ok hs then send st hs (utf8_encode t) else Inl TypeError)"

subsection \<open>Relay: delivering a response message\<close>

text \<open>
  Lines 147--170 of the \<^verbatim>\<open>'message'\<close> callback: what is written to \<^verbatim>\<open>res\<close>, or the
  error thrown before anything is sent. \<^verbatim>\<open>Buffer.from(body, 'base64')\<close> throws a
  TypeError on a number.
\<close>

definition deliver :: "tunnelId \<Rightarrow> nat \<Rightarrow> headers \<Rightarrow> body_field \<Rightarrow> js_error + http_response" where
  "deliver tunnelId status hdrs body =
     (let hs = copy_headers hdrs [] in
      case contentType hdrs of
        Inl e \<Rightarrow> Inl e
      | Inr ct \<Rightarrow>
          let isHtml = includes_str ct ''text/html'';
              st = (if status = 0 then 200 else status)
          in case body of
               BodyNull \<Rightarrow> res_end st hs
             | BodyNum n \<Rightarrow> if n = 0 then res_end st hs else Inl TypeError
             | BodyStr b \<Rightarrow>
                 if b = [] then res_end st hs
                 else
                   let buf = fromBase64 b in
                   if isHtml then
                     let rewritten = rewriteHtml (utf8_decode buf) tunnelId in
                     (case setHeader ''content-length''
                             (HNum (int (length (utf8_encode rewritten)))) hs of
                        Inl e \<Rightarrow> Inl e
                      | Inr hs' \<Rightarrow> send_text st hs' rewritten)
                   else send st hs buf)"

text \<open>
  The \<^verbatim>\<open>try\<close> block of \<^verbatim>\<open>ws.on('message', ...)\<close> for the socket whose callbacks close
  over \<open>tunnelId\<close>: the state it leaves, and the error it throws, if any.
\<close>

definition message_try :: "tunnelId \<Rightarrow> inbound \<Rightarrow> relay \<Rightarrow> relay \<times> js_error option" where
  "message_try tunnelId d s =
     (case d of
        Unparseable \<Rightarrow> (s, Some SyntaxError)
      | JsonNull \<Rightarrow> (s, Some TypeError)
      | Json (Response reqId status hdrs body) \<Rightarrow>
          (case tunnels s tunnelId of
             None \<Rightarrow> (s, None)
           | Some a \<Rightarrow>
               (case map_of (pending_of s a) reqId of
                  None \<Rightarrow> (s, None)
                | Some p \<Rightarrow>
                    let s1 = clearTimeout (p_timeout p) s;
                        s2 = set_pending a (AList.delete reqId (pending_of s1 a)) s1
                    in case deliver tunnelId status hdrs body of
                         Inl e \<Rightarrow> (s2, Some e)
                       | Inr r \<Rightarrow>
                           (respond (p_res p) (hr_status r) (hr_headers r) (hr_body r) s2, None)))
      | Json _ \<Rightarrow> (s, None))"

text \<open>\<^verbatim>\<open>ws.on('message', ...)\<close>: the \<^verbatim>\<open>catch\<close> logs the error and returns.\<close>

definition ws_message :: "socket \<Rightarrow> inbound \<Rightarrow> relay \<Rightarrow> relay" where
  "ws_message w d s =
     (case closure s w of
        None \<Rightarrow> s
      | Some tunnelId \<Rightarrow>
          (case message_try tunnelId d s of
             (s', None) \<Rightarrow> s'
           | (s', Some e) \<Rightarrow> s'\<lparr>console := console s' @ [WsMessageError e]\<rparr>))"

text \<open>\<^verbatim>\<open>tunnel.pendingRequests.forEach(({ res, timeout }) => ...)\<close>\<close>

fun fail_all :: "(reqId \<times> pending) list \<Rightarrow> relay \<Rightarrow> relay" where
  "fail_all [] s = s"
| "fail_all ((k, p) # ps) s =
     fail_all ps (respond (p_res p) 503 [] ''Tunnel disconnected.'' (clearTimeout (p_timeout p) s))"

text \<open>\<^verbatim>\<open>ws.on('close', ...)\<close>\<close>

definition ws_close :: "socket \<Rightarrow> relay \<Rightarrow> relay" where
  "ws_close w s =
     (case closure s w of
        None \<Rightarrow> s
      | Some tunnelId \<Rightarrow>
          let s0 = s\<lparr>console := console s @ [TunnelDisconnected tunnelId]\<rparr> in
          case tunnels s0 tunnelId of
            None \<Rightarrow> s0
          | Some a \<Rightarrow>
              let s1 = fail_all (pending_of s0 a) s0
              in s1\<lparr>tunnels := (tunnels s1)(tunnelId := None)\<rparr>)"

subsection \<open>Relay: events\<close>

text \<open>
  What can happen to the relay. The socket library emits \<^verbatim>\<open>'connection'\<close> for a socket
  that is open, and \<^verbatim>\<open>'close'\<close> once a socket is closed; \<open>WsClosing\<close> is a socket
  leaving the open state before its \<^verbatim>\<open>'close'\<close> event. \<open>HttpRequest\<close> is a public
  request arriving, with its method and what the body parser does with it;
  \<open>HttpTunnel\<close> is Express calling the route handler, which is what becomes of a
  request that both middlewares pass on untouched. \<open>HttpBody\<close> is the \<^verbatim>\<open>'end'\<close> of a
  request stream.
\<close>

datatype event =
    Connection socket "string option"
  | WsMessage socket inbound
  | WsClosing socket
  | WsClose socket
  | HttpRequest exchange string body_parser tunnelId reqId
  | HttpTunnel exchange tunnelId reqId
  | HttpBody exchange http_request bool
  | TimerFires timer

fun step :: "event \<Rightarrow> relay \<Rightarrow> relay" where
  "step (Connection w tunnelId) s = connection w tunnelId (s\<lparr>readyState := (readyState s)(w := OPEN)\<rparr>)"
| "step (WsMessage w d) s = ws_message w d s"
| "step (WsClosing w) s = s\<lparr>readyState := (readyState s)(w := CLOSING)\<rparr>"
| "step (WsClose w) s = ws_close w (s\<lparr>readyState := (readyState s)(w := CLOSED)\<rparr>)"
| "step (HttpRequest res meth parser tunnelId reqId) s = app_request res meth parser tunnelId reqId s"
| "step (HttpTunnel res tunnelId reqId) s = tunnel_request res tunnelId reqId s"
| "step (HttpBody res req send_throws) s = tunnel_request_body res req send_throws s"
| "step (TimerFires t) s = timeout_fires t s"

fun run :: "event list \<Rightarrow> relay \<Rightarrow> relay" where
  "run [] s = s"
| "run (e # es) s = run es (step e s)"

text \<open>The responses written so far to one exchange.\<close>

definition outcomes :: "relay \<Rightarrow> exchange \<Rightarrow> http_response list" where
  "outcomes s res = map snd (filter (\<lambda>(r, x). r = res) (responses s))"

text \<open>A public request used in the examples: \<^verbatim>\<open>GET /t/abc123/hello\<close>, no body.\<close>

definition get_hello :: http_request where
  "get_hello =
     \<lparr>rq_method = ''GET'', rq_originalUrl = ''/t/abc123/hello'',
      rq_headers = [(''host'', HStr ''relay.example''), (''accept'', HStr ''*/*'')],
      rq_chunks = []\<rparr>"

text \<open>
  An exchange is unreferenced when no suspended handler, no armed timer and no pending
  entry of any tunnel object holds it: nothing in the relay can write to it any more.
\<close>

definition unreferenced :: "exchange \<Rightarrow> relay \<Rightarrow> bool" where
  "unreferenced res s =
     (awaiting s res = None
      \<and> (\<forall>t c. timers s t = Some c \<longrightarrow> tm_res c \<noteq> res)
      \<and> (\<forall>a k p. (k, p) \<in> set (pending_of s a) \<longrightarrow> p_res p \<noteq> res))"

text \<open>A new public request for exchange \<open>res\<close> arrives.\<close>

fun arrival_of :: "exchange \<Rightarrow> event \<Rightarrow> bool" where
  "arrival_of res (HttpTunnel r tunnelId reqId) = (r = res)"
| "arrival_of res (HttpRequest r meth parser tunnelId reqId) = (r = res)"
| "arrival_of res _ = False"

text \<open>From \<open>s\<close> to \<open>s'\<close> nothing was written to \<open>res\<close>, and nothing can be later.\<close>

definition quiet :: "exchange \<Rightarrow> relay \<Rightarrow> relay \<Rightarrow> bool" where
  "quiet res s s' = (unreferenced res s' \<and> outcomes s' res = outcomes s res)"

subsection \<open>Client: the forwarding agent\<close>

text \<open>
  The result of \<^verbatim>\<open>new URL(targetUrl)\<close>, with the fields the source reads. Parsing is
  Node's; the model takes it as a parameter \<open>parse\<close>, \<open>None\<close> when the constructor
  throws.
\<close>

record url =
  u_protocol :: string
  u_hostname :: string
  u_port :: string
  u_host :: string
  u_pathname :: string
  u_search :: string

text \<open>
  How the call to the local service ends: a response (status, headers and the chunks of
  its body), an \<^verbatim>\<open>'error'\<close> on the response stream, or an \<^verbatim>\<open>'error'\<close> on the request
  (connection refused, host unreachable, ...) with its \<^verbatim>\<open>err.message\<close>.
\<close>

datatype local_outcome =
    LocalResponse nat headers "bytes list"
  | LocalResponseError
  | LocalRequestError string

text \<open>What \<^verbatim>\<open>forwardToLocal\<close> resolves with: \<^verbatim>\<open>{ status, headers, body }\<close>.\<close>

record forwarded =
  fw_status :: nat
  fw_headers :: headers
  fw_body :: "string option"

text \<open>The request made with \<^verbatim>\<open>lib.request(options, ...)\<close> and the body written to it.\<close>

record local_call =
  lc_https :: bool
  lc_hostname :: string
  lc_port :: string
  lc_path :: string
  lc_method :: string
  lc_headers :: headers
  lc_body :: "bytes option"

definition targetUrl :: "string \<Rightarrow> string \<Rightarrow> string" where
  "targetUrl localUrl path = localUrl @ (if path = [] then ''/'' else path)"

definition local_request ::
  "(string \<Rightarrow> url option) \<Rightarrow> string \<Rightarrow> string \<Rightarrow> string \<Rightarrow> headers \<Rightarrow> string option
   \<Rightarrow> local_call option" where
  "local_request parse localUrl method path hdrs body =
     (case parse (targetUrl localUrl path) of
        None \<Rightarrow> None
      | Some u \<Rightarrow>
          let isHttps = (u_protocol u = ''https:'') in
          Some \<lparr>lc_https = isHttps,
                lc_hostname = u_hostname u,
                lc_port = (if u_port u = [] then (if isHttps then ''443'' else ''80'') else u_port u),
                lc_path = u_pathname u @ u_search u,
                lc_method = (if method = [] then ''GET'' else method),
                lc_headers =
                  filter (\<lambda>(k, v). k \<notin> set [''connection'', ''transfer-encoding'', ''upgrade'', ''keep-alive''])
                    (AList.update ''host'' (HStr (u_host u)) hdrs),
                lc_body = (case body of
                             None \<Rightarrow> None
                           | Some b \<Rightarrow> if b = [] then None else Some (fromBase64 b))\<rparr>)"

text \<open>
  \<^verbatim>\<open>async function forwardToLocal(reqData)\<close>: the value the promise resolves with, given
  how the local call ends.
\<close>

definition forwardToLocal ::
  "(string \<Rightarrow> url option) \<Rightarrow> string \<Rightarrow> string \<Rightarrow> local_outcome \<Rightarrow> forwarded" where
  "forwardToLocal parse localUrl path outcome =
     (case parse (targetUrl localUrl path) of
        None \<Rightarrow> \<lparr>fw_status = 400, fw_headers = [], fw_body = None\<rparr>
      | Some u \<Rightarrow>
          (case outcome of
             LocalResponse st hs chunks \<Rightarrow>
               \<lparr>fw_status = st, fw_headers = hs, fw_body = encode_chunks chunks\<rparr>
           | LocalResponseError \<Rightarrow> \<lparr>fw_status = 502, fw_headers = [], fw_body = None\<rparr>
           | LocalRequestError msg \<Rightarrow>
               \<lparr>fw_status = 502,
                fw_headers = [(''content-type'', HStr ''text/plain'')],
                fw_body = Some (toBase64 (utf8_encode (''Local server error: '' @ msg)))\<rparr>))"

subsection \<open>Client: the message callback\<close>

datatype client_log =
    LogReq string string
  | LogOk nat string
  | LogErr string
  | LogTunnelActive

text \<open>
  The callback is \<^verbatim>\<open>async\<close>: it either completes, having handed some frames to
  \<^verbatim>\<open>ws.send\<close> and printed some lines, or its promise is rejected with an error.
\<close>

datatype handled = Completed "message list" "client_log list" | Rejected js_error

definition body_to_json :: "string option \<Rightarrow> body_field" where
  "body_to_json b = (case b of None \<Rightarrow> BodyNull | Some x \<Rightarrow> BodyStr x)"

text \<open>
  \<^verbatim>\<open>ws.on('message', async (data) => ...)\<close> of the client. \<open>outcome\<close> is how the local
  call ends, should the message be a request.
\<close>

definition client_message ::
  "(string \<Rightarrow> url option) \<Rightarrow> string \<Rightarrow> inbound \<Rightarrow> local_outcome \<Rightarrow> handled" where
  "client_message parse localUrl d outcome =
     (case d of
        Unparseable \<Rightarrow> Completed [] []
      | JsonNull \<Rightarrow> Rejected TypeError
      | Json (Connected t) \<Rightarrow> Completed [] [LogTunnelActive]
      | Json (Request reqId method path hdrs body) \<Rightarrow>
          let response = forwardToLocal parse localUrl path outcome in
          Completed
            [Response reqId (fw_status response) (fw_headers response)
               (body_to_json (fw_body response))]
            ([LogReq method path]
             @ (case (parse (targetUrl localUrl path), outcome) of
                  (Some u, LocalRequestError msg) \<Rightarrow> [LogErr (''Local server error: '' @ msg)]
                | _ \<Rightarrow> [])
             @ [LogOk (fw_status response) path])
      | Json _ \<Rightarrow> Completed [] [])"

text \<open>
  Nothing awaits the promise of the callback and the source installs no
  \<^verbatim>\<open>'unhandledRejection'\<close> handler, so a rejection is an unhandled one: Node (from
  version 15 on) prints the error and ends the process with exit code 1.
\<close>

datatype process = Running | Exited nat

definition after_message :: "handled \<Rightarrow> process" where
  "after_message h = (case h of Completed frames lines \<Rightarrow> Running | Rejected e \<Rightarrow> Exited 1)"

subsection \<open>A request through the tunnel and back\<close>

text \<open>
  The response the relay writes when the client has forwarded a request and the local
  service has answered: \<^verbatim>\<open>forwardToLocal\<close> on the client, the \<^verbatim>\<open>response\<close> message, and
  lines 147--170 of the relay on the other side.
\<close>

definition relayed_response ::
  "(string \<Rightarrow> url option) \<Rightarrow> string \<Rightarrow> tunnelId \<Rightarrow> string \<Rightarrow> local_outcome
   \<Rightarrow> js_error + http_response" where
  "relayed_response parse localUrl tunnelId path outcome =
     (let response = forwardToLocal parse localUrl path outcome
      in deliver tunnelId (fw_status response) (fw_headers response)
           (body_to_json (fw_body response)))"

text \<open>A local target used in the examples: \<^verbatim>\<open>http://localhost:4444/hello\<close> as \<^verbatim>\<open>new URL\<close> parses it.\<close>

definition local_4444 :: url where
  "local_4444 = \<lparr>u_protocol = ''http:'', u_hostname = ''localhost'', u_port = ''4444'',
                  u_host = ''localhost:4444'', u_pathname = ''/hello'', u_search = []\<rparr>"

subsection \<open>Client: connection lifecycle and reconnect delay\<close>

text \<open>
  \<^verbatim>\<open>let reconnectDelay = 2000; let shouldReconnect = true;\<close>
  The delay is a JavaScript number (milliseconds). Every value it can take
  (2000, 3000, 4500, 6750, 10125, 15000) and every intermediate product
  (at most 22500, with 15187.5 the only non-integer) is a multiple of one half far
  below \<open>2 ^ 53\<close>, hence exact in binary64; the model uses rationals.
  \<open>scheduled\<close> records the delays handed to \<^verbatim>\<open>setTimeout(connect, reconnectDelay)\<close>,
  oldest first.
\<close>

record lifecycle =
  reconnectDelay :: rat
  shouldReconnect :: bool
  scheduled :: "rat list"

definition lifecycle_init :: lifecycle where
  "lifecycle_init = \<lparr>reconnectDelay = 2000, shouldReconnect = True, scheduled = []\<rparr>"

text \<open>\<^verbatim>\<open>ws.on('open', () => { reconnectDelay = 2000; ... })\<close>\<close>

definition on_open :: "lifecycle \<Rightarrow> lifecycle" where
  "on_open l = l\<lparr>reconnectDelay := 2000\<rparr>"

text \<open>
  \<^verbatim>\<open>ws.on('close', ...)\<close>: when \<open>shouldReconnect\<close>, schedule \<open>connect\<close> after the
  current delay, then \<^verbatim>\<open>reconnectDelay = Math.min(reconnectDelay * 1.5, 15000)\<close>.
\<close>

definition on_close :: "lifecycle \<Rightarrow> lifecycle" where
  "on_close l =
     (if shouldReconnect l
      then l\<lparr>scheduled := scheduled l @ [reconnectDelay l],
             reconnectDelay := min (reconnectDelay l * (3 / 2)) 15000\<rparr>
      else l)"

text \<open>\<^verbatim>\<open>process.on('SIGINT', ...)\<close> clears the flag (and then exits the process).\<close>

definition on_sigint :: "lifecycle \<Rightarrow> lifecycle" where
  "on_sigint l = l\<lparr>shouldReconnect := False\<rparr>"

text \<open>\<open>n\<close> connection attempts in a row that close without ever opening.\<close>

fun failures :: "nat \<Rightarrow> lifecycle \<Rightarrow> lifecycle" where
  "failures 0 l = l"
| "failures (Suc n) l = failures n (on_close l)"

section \<open>Properties\<close>

subsection \<open>Base64 round trip\<close>


lemma code_less_256: "code c < 256"
  by (simp add: code_def)

lemma char_of_code: "char_of (code c) = c"
  by (simp add: code_def)

lemma dec_enc_char: "n < 64 \<Longrightarrow> dec_char (enc_char n) = Some n"
  by (auto simp add: enc_char_def dec_char_def code_def)

lemma enc_char_not_pad: "n < 64 \<Longrightarrow> enc_char n \<noteq> CHR ''=''"
proof
  assume n: "n < 64" and e: "enc_char n = CHR ''=''"
  have "dec_char (CHR ''='') = None"
    by (simp add: dec_char_def code_def)
  with dec_enc_char [OF n] e show False by simp
qed

lemma sextet_bounds:
  "code a div 4 < 64 \<and> code a mod 4 * 16 + code b div 16 < 64
   \<and> code b mod 16 * 4 + code c div 64 < 64 \<and> code c mod 64 < 64
   \<and> code a mod 4 * 16 < 64 \<and> code b mod 16 * 4 < 64"
  using code_less_256 [of a] code_less_256 [of b] code_less_256 [of c]
  by (intro conjI; simp)

lemma byte_1: "code a div 4 * 4 + (code a mod 4 * 16 + code b div 16) div 16 = code a"
  using code_less_256 [of b] by simp

lemma byte_2:
  "(code a mod 4 * 16 + code b div 16) mod 16 * 16 + (code b mod 16 * 4 + code c div 64) div 4
   = code b"
  using code_less_256 [of b] code_less_256 [of c] by simp

lemma byte_3: "(code b mod 16 * 4 + code c div 64) mod 4 * 64 + code c mod 64 = code c"
  using code_less_256 [of c] by simp

lemma decode_group:
  assumes "a < 64" "b < 64" "c < 64" "d < 64"
  shows "List.map_filter dec_char
           (takeWhile (\<lambda>x. x \<noteq> CHR ''='') (enc_char a # enc_char b # enc_char c # enc_char d # rest))
         = a # b # c # d # List.map_filter dec_char (takeWhile (\<lambda>x. x \<noteq> CHR ''='') rest)"
  using assms by (simp add: enc_char_not_pad dec_enc_char)

lemma toBase64_decoded:
  "sextets_to_bytes (List.map_filter dec_char (takeWhile (\<lambda>x. x \<noteq> CHR ''='') (toBase64 bs))) = bs"
proof (induction bs rule: toBase64.induct)
  case 1
  show ?case by simp
next
  case (2 a)
  have "code a div 4 < 64" "code a mod 4 * 16 < 64"
    using sextet_bounds [of a a a] by blast+
  then show ?case
    using byte_1 [of a a] code_less_256 [of a]
    by (simp add: enc_char_not_pad dec_enc_char char_of_code)
next
  case (3 a b)
  have "code a div 4 < 64" "code a mod 4 * 16 + code b div 16 < 64" "code b mod 16 * 4 < 64"
    using sextet_bounds [of a b b] by blast+
  then show ?case
    using byte_1 [of a b] byte_2 [of a b b] code_less_256 [of b]
    by (simp add: enc_char_not_pad dec_enc_char char_of_code)
next
  case (4 a b c rest)
  have s: "code a div 4 < 64" "code a mod 4 * 16 + code b div 16 < 64"
    "code b mod 16 * 4 + code c div 64 < 64" "code c mod 64 < 64"
    using sextet_bounds [of a b c] by blast+
  have "sextets_to_bytes
          (List.map_filter dec_char (takeWhile (\<lambda>x. x \<noteq> CHR ''='') (toBase64 (a # b # c # rest))))
        = [char_of (code a), char_of (code b), char_of (code c)]
          @ sextets_to_bytes
              (List.map_filter dec_char (takeWhile (\<lambda>x. x \<noteq> CHR ''='') (toBase64 rest)))"
    unfolding toBase64.simps append_Cons append_Nil decode_group [OF s]
      sextets_to_bytes.simps byte_1 byte_2 byte_3
    by simp
  then show ?case
    using "4.IH" by (simp add: char_of_code)
qed

text \<open>On ASCII text the bytes, the code points and the code units are the same.\<close>

lemma decode_ascii:
  "\<forall>c\<in>set s. code c < 128 \<Longrightarrow> decode_from Idle s = map (\<lambda>c. int (code c)) s"
  by (induction s) (simp_all add: lead_byte_def)

lemma code_units_ascii:
  assumes "\<forall>c\<in>set s. code c < 128"
  shows "code_units s = map (\<lambda>c. int (code c)) s"
proof -
  have "concat (map utf16_units (map (\<lambda>c. int (code c)) s)) = map (\<lambda>c. int (code c)) s"
    using assms by (induction s) (simp_all add: utf16_units_def)
  then show ?thesis
    using decode_ascii [OF assms] by (simp add: code_units_def code_points_def)
qed

lemma low_bytes_ascii:
  assumes "\<forall>c\<in>set s. code c < 128"
  shows "low_bytes s = s"
proof -
  have "map (\<lambda>u. byte (u mod 256)) (map (\<lambda>c. int (code c)) s) = s"
    using assms by (induction s) (simp_all add: byte_def char_of_code)
  then show ?thesis
    using code_units_ascii [OF assms] by (simp add: low_bytes_def)
qed

lemma utf8_decode_ascii:
  assumes "\<forall>c\<in>set s. code c < 128"
  shows "utf8_decode s = s"
proof -
  have "concat (map encode_point (map (\<lambda>c. int (code c)) s)) = s"
    using assms by (induction s) (simp_all add: encode_point_def byte_def char_of_code)
  then show ?thesis
    using decode_ascii [OF assms] by (simp add: utf8_decode_def code_points_def)
qed

lemma enc_char_ascii: "code (enc_char n) < 128"
  by (auto simp add: enc_char_def code_def)

lemma toBase64_ascii: "\<forall>c\<in>set (toBase64 bs). code c < 128"
  by (induction bs rule: toBase64.induct) (simp_all add: enc_char_ascii, simp_all add: code_def)

lemma fromBase64_toBase64: "fromBase64 (toBase64 bs) = bs"
  by (simp add: fromBase64_def toBase64_decoded low_bytes_ascii [OF toBase64_ascii])

lemma toBase64_empty: "toBase64 bs = [] \<longleftrightarrow> bs = []"
  by (cases bs rule: toBase64.cases) simp_all

subsection \<open>Substrings\<close>




subsection \<open>Unfolding the relay\<close>


lemmas relay_defs =
  relay_init_def connection_def tunnel_request_def tunnel_request_body_def timeout_fires_def
  ws_message_def message_try_def ws_close_def set_pending_def pending_of_def respond_def
  clearTimeout_def get_hello_def rawPath_def encode_chunks_def startsWith_def outcomes_def
  Let_def

subsection \<open>Relay: the offline answer\<close>









lemma app_request_untouched:
  "toUpperCase meth \<noteq> ''OPTIONS'' \<Longrightarrow>
   app_request res meth Untouched tunnelId reqId s = tunnel_request res tunnelId reqId s"
  by (simp add: app_request_def)




text \<open>
  Claim C10. The status endpoint answers \<open>connected: true\<close> exactly when the registry
  has an entry for the tunnel id, whatever the state of any socket. The tunnel request
  handler reads the socket's state as well: with an entry whose socket is not open it
  answers 503, and with an entry whose socket is open it writes no response and goes on
  to wait for the request body. So there is a reachable state (a registered socket
  that has begun to close) in which the status is \<open>true\<close> and a tunneled request is
  answered 503.
\<close>

theorem status_reads_registry_only:
  "api_status s tunnelId = (tunnelId, tunnels s tunnelId \<noteq> None)
   \<and> api_status (s\<lparr>readyState := r\<rparr>) tunnelId = api_status s tunnelId
   \<and> (tunnels s tunnelId = Some a \<and> readyState s (t_ws (heap s a)) \<noteq> OPEN \<longrightarrow>
        snd (api_status s tunnelId)
        \<and> tunnel_request res tunnelId reqId s
            = s\<lparr>responses := responses s
                   @ [(res, \<lparr>hr_status = 503, hr_headers = [], hr_body = offline_page tunnelId\<rparr>)]\<rparr>)
   \<and> (tunnels s tunnelId = Some a \<and> readyState s (t_ws (heap s a)) = OPEN \<longrightarrow>
        snd (api_status s tunnelId)
        \<and> tunnel_request res tunnelId reqId s
            = s\<lparr>awaiting := (awaiting s)(res \<mapsto>
                   \<lparr>aw_tunnel = a, aw_tunnelId = tunnelId, aw_reqId = reqId\<rparr>)\<rparr>
        \<and> responses (tunnel_request res tunnelId reqId s) = responses s)
   \<and> snd (api_status (run [Connection 1 (Some ''abc123''), WsClosing 1] relay_init) ''abc123'')
   \<and> map (hr_status \<circ> snd)
        (responses (tunnel_request 7 ''abc123'' ''r''
           (run [Connection 1 (Some ''abc123''), WsClosing 1] relay_init))) = [503]"
  by (simp add: api_status_def relay_init_def connection_def tunnel_request_def respond_def)

theorem status_reads_registry_only_witness:
  "api_status (run [Connection 1 (Some ''abc123'')] relay_init) ''abc123'' = (''abc123'', True)
   \<and> outcomes (run [Connection 1 (Some ''abc123''), HttpTunnel 7 ''abc123'' ''r''] relay_init) 7 = []
   \<and> awaiting (run [Connection 1 (Some ''abc123''), HttpTunnel 7 ''abc123'' ''r''] relay_init) 7
       = Some \<lparr>aw_tunnel = 0, aw_tunnelId = ''abc123'', aw_reqId = ''r''\<rparr>
   \<and> api_status (run [Connection 1 (Some ''abc123''), WsClosing 1] relay_init) ''abc123''
       = (''abc123'', True)
   \<and> outcomes (run [Connection 1 (Some ''abc123''), WsClosing 1, HttpTunnel 7 ''abc123'' ''r'']
                  relay_init) 7
       = [\<lparr>hr_status = 503, hr_headers = [], hr_body = offline_page ''abc123''\<rparr>]
   \<and> api_status relay_init ''abc123'' = (''abc123'', False)"
proof -
  let ?o = "run [Connection 1 (Some ''abc123'')] relay_init"
  let ?c = "run [Connection 1 (Some ''abc123''), WsClosing 1] relay_init"
  have o: "tunnels ?o ''abc123'' = Some 0" "readyState ?o (t_ws (heap ?o 0)) = OPEN"
    "responses ?o = []" "awaiting ?o = Map.empty"
    by (simp_all add: relay_init_def connection_def)
  have c: "tunnels ?c ''abc123'' = Some 0" "readyState ?c (t_ws (heap ?c 0)) \<noteq> OPEN"
    "responses ?c = []"
    by (simp_all add: relay_init_def connection_def)
  note t1 = status_reads_registry_only [where s = ?o and tunnelId = "''abc123''" and a = 0
      and res = 7 and reqId = "''r''"]
  note t2 = status_reads_registry_only [where s = ?c and tunnelId = "''abc123''" and a = 0
      and res = 7 and reqId = "''r''"]
  note t3 = status_reads_registry_only [where s = relay_init and tunnelId = "''abc123''"]
  have a1: "api_status ?o ''abc123'' = (''abc123'', True)"
    and a2: "tunnel_request 7 ''abc123'' ''r'' ?o
             = ?o\<lparr>awaiting := (awaiting ?o)(7 \<mapsto>
                    \<lparr>aw_tunnel = 0, aw_tunnelId = ''abc123'', aw_reqId = ''r''\<rparr>)\<rparr>"
    using t1 o(1,2) by simp_all
  have b1: "api_status ?c ''abc123'' = (''abc123'', True)"
    and b2: "tunnel_request 7 ''abc123'' ''r'' ?c
             = ?c\<lparr>responses := responses ?c
                    @ [(7, \<lparr>hr_status = 503, hr_headers = [], hr_body = offline_page ''abc123''\<rparr>)]\<rparr>"
    using t2 c(1,2) by simp_all
  have c1: "api_status relay_init ''abc123'' = (''abc123'', False)"
    using t3 by (simp add: relay_init_def)
  have r1: "run [Connection 1 (Some ''abc123''), HttpTunnel 7 ''abc123'' ''r''] relay_init
            = tunnel_request 7 ''abc123'' ''r'' ?o"
    and r2: "run [Connection 1 (Some ''abc123''), WsClosing 1, HttpTunnel 7 ''abc123'' ''r''] relay_init
            = tunnel_request 7 ''abc123'' ''r'' ?c"
    by simp_all
  have x1: "outcomes (tunnel_request 7 ''abc123'' ''r'' ?o) 7 = []"
    and x2: "awaiting (tunnel_request 7 ''abc123'' ''r'' ?o) 7
             = Some \<lparr>aw_tunnel = 0, aw_tunnelId = ''abc123'', aw_reqId = ''r''\<rparr>"
    unfolding a2 using o(3) by (simp_all add: outcomes_def)
  have x3: "outcomes (tunnel_request 7 ''abc123'' ''r'' ?c) 7
            = [\<lparr>hr_status = 503, hr_headers = [], hr_body = offline_page ''abc123''\<rparr>]"
    unfolding b2 using c(3) by (simp add: outcomes_def)
  show ?thesis
    unfolding r1 r2 using a1 x1 x2 b1 x3 c1 by simp
qed


subsection \<open>Relay: the deadline\<close>


lemma map_of_update: "map_of (AList.update k v al) = (map_of al)(k \<mapsto> v)"
  by (simp add: update_conv')

lemma map_of_delete: "map_of (AList.delete k al) = (map_of al)(k := None)"
  by (simp add: delete_conv')

text \<open>
  Claim C4. A request that is sent down the tunnel arms one timer, of 30000 ms, whose
  callback holds the tunnel object, the correlation id and the exchange. When the timer
  fires and the pending entry is still in the tunnel's map, the entry is removed and
  status 504 with body "Gateway Timeout" is written to the exchange; when the entry is
  gone, firing changes nothing (the timer only leaves the set of armed timers).
\<close>

theorem deadline_timer:
  "(awaiting s res = Some w \<longrightarrow>
      timers (tunnel_request_body res req False s) (next_timer s)
        = Some \<lparr>tm_tunnel = aw_tunnel w, tm_reqId = aw_reqId w, tm_res = res, tm_delay = 30000\<rparr>
      \<and> map_of (pending_of (tunnel_request_body res req False s) (aw_tunnel w)) (aw_reqId w)
        = Some \<lparr>p_res = res, p_tunnelId = aw_tunnelId w, p_timeout = Some (next_timer s)\<rparr>)
   \<and> (timers s t = Some c \<and> map_of (pending_of s (tm_tunnel c)) (tm_reqId c) \<noteq> None \<longrightarrow>
        map_of (pending_of (timeout_fires t s) (tm_tunnel c)) (tm_reqId c) = None
        \<and> responses (timeout_fires t s)
            = responses s
              @ [(tm_res c, \<lparr>hr_status = 504, hr_headers = [], hr_body = ''Gateway Timeout''\<rparr>)])
   \<and> (timers s t = Some c \<and> map_of (pending_of s (tm_tunnel c)) (tm_reqId c) = None \<longrightarrow>
        timeout_fires t s = s\<lparr>timers := (timers s)(t := None)\<rparr>)"
  by (auto simp add: tunnel_request_body_def timeout_fires_def set_pending_def pending_of_def
        respond_def Let_def map_of_update map_of_delete)

theorem deadline_timer_witness:
  "timers (run [Connection 1 (Some ''abc123''), HttpTunnel 7 ''abc123'' ''r1'',
                HttpBody 7 get_hello False] relay_init) 0
     = Some \<lparr>tm_tunnel = 0, tm_reqId = ''r1'', tm_res = 7, tm_delay = 30000\<rparr>
   \<and> responses (run [Connection 1 (Some ''abc123''), HttpTunnel 7 ''abc123'' ''r1'',
                     HttpBody 7 get_hello False, TimerFires 0] relay_init)
     = [(7, \<lparr>hr_status = 504, hr_headers = [], hr_body = ''Gateway Timeout''\<rparr>)]
   \<and> pending_of (run [Connection 1 (Some ''abc123''), HttpTunnel 7 ''abc123'' ''r1'',
                      HttpBody 7 get_hello False, TimerFires 0] relay_init) 0 = []
   \<and> timers (run [Connection 1 (Some ''abc123''), HttpTunnel 7 ''abc123'' ''r1'',
                  HttpBody 7 get_hello False, HttpTunnel 8 ''abc123'' ''r1'',
                  HttpBody 8 get_hello False, TimerFires 0] relay_init) 1
     = Some \<lparr>tm_tunnel = 0, tm_reqId = ''r1'', tm_res = 8, tm_delay = 30000\<rparr>
   \<and> responses (run [Connection 1 (Some ''abc123''), HttpTunnel 7 ''abc123'' ''r1'',
                     HttpBody 7 get_hello False, HttpTunnel 8 ''abc123'' ''r1'',
                     HttpBody 8 get_hello False, TimerFires 0, TimerFires 1] relay_init)
     = [(7, \<lparr>hr_status = 504, hr_headers = [], hr_body = ''Gateway Timeout''\<rparr>)]"
proof -
  let ?s0 = "run [Connection 1 (Some ''abc123''), HttpTunnel 7 ''abc123'' ''r1''] relay_init"
  let ?w = "\<lparr>aw_tunnel = 0, aw_tunnelId = ''abc123'', aw_reqId = ''r1''\<rparr>"
  let ?s1 = "tunnel_request_body 7 get_hello False ?s0"
  let ?c = "\<lparr>tm_tunnel = 0, tm_reqId = ''r1'', tm_res = 7, tm_delay = 30000\<rparr>"
  let ?s3 = "run [HttpTunnel 8 ''abc123'' ''r1'', HttpBody 8 get_hello False, TimerFires 0] ?s1"
  let ?c' = "\<lparr>tm_tunnel = 0, tm_reqId = ''r1'', tm_res = 8, tm_delay = 30000\<rparr>"
  have a: "awaiting ?s0 7 = Some ?w" and n: "next_timer ?s0 = 0"
    by (simp_all add: relay_defs)
  have armed: "timers ?s1 0 = Some ?c"
    using deadline_timer [where s = ?s0 and res = 7 and w = ?w and req = get_hello] a n by simp
  have present: "map_of (pending_of ?s1 (tm_tunnel ?c)) (tm_reqId ?c) \<noteq> None"
    using deadline_timer [where s = ?s0 and res = 7 and w = ?w and req = get_hello] a by simp
  have fired: "map_of (pending_of (timeout_fires 0 ?s1) 0) ''r1'' = None
               \<and> responses (timeout_fires 0 ?s1)
                   = responses ?s1
                     @ [(7, \<lparr>hr_status = 504, hr_headers = [], hr_body = ''Gateway Timeout''\<rparr>)]"
    using deadline_timer [where s = ?s1 and t = 0 and c = ?c] armed present by simp
  have r1: "responses ?s1 = []" and p1: "pending_of (timeout_fires 0 ?s1) 0 = []"
    by (simp_all add: relay_defs)
  have late: "timers ?s3 1 = Some ?c'" "map_of (pending_of ?s3 (tm_tunnel ?c')) (tm_reqId ?c') = None"
    and r3: "responses ?s3
             = [(7, \<lparr>hr_status = 504, hr_headers = [], hr_body = ''Gateway Timeout''\<rparr>)]"
    by (simp_all add: relay_defs)
  have noop: "timeout_fires 1 ?s3 = ?s3\<lparr>timers := (timers ?s3)(1 := None)\<rparr>"
    using deadline_timer [where s = ?s3 and t = 1 and c = ?c'] late by simp
  have "responses (timeout_fires 1 ?s3) = responses ?s3"
    unfolding noop by simp
  then show ?thesis
    using armed fired r1 p1 late(1) r3 by simp
qed

subsection \<open>Client: the forwarding agent\<close>


text \<open>
  Claim C8. When the request to the local service ends in a connection error, the
  forwarding agent resolves with status 502, the header \<open>content-type: text/plain\<close>
  and the base64 text of "Local server error: " followed by the error's message; the
  message callback sends exactly one frame, an ordinary \<open>response\<close> message with the
  \<open>reqId\<close> of the request, and the relay's delivery of that message is a 502 response
  whose body is that text.
\<close>

theorem local_error_502:
  assumes "parse (targetUrl localUrl path) = Some u"
  shows "forwardToLocal parse localUrl path (LocalRequestError msg)
           = \<lparr>fw_status = 502, fw_headers = [(''content-type'', HStr ''text/plain'')],
              fw_body = Some (toBase64 (''Local server error: '' @ msg))\<rparr>
         \<and> (\<exists>lines. client_message parse localUrl (Json (Request reqId meth path hdrs body))
                        (LocalRequestError msg)
               = Completed
                   [Response reqId 502 [(''content-type'', HStr ''text/plain'')]
                      (BodyStr (toBase64 (''Local server error: '' @ msg)))] lines)
         \<and> fromBase64 (toBase64 (''Local server error: '' @ msg)) = ''Local server error: '' @ msg
         \<and> relayed_response parse localUrl tunnelId path (LocalRequestError msg)
             = Inr \<lparr>hr_status = 502, hr_headers = [(''content-type'', HStr ''text/plain'')],
                    hr_body = ''Local server error: '' @ msg\<rparr>"
proof -
  have f: "forwardToLocal parse localUrl path (LocalRequestError msg)
           = \<lparr>fw_status = 502, fw_headers = [(''content-type'', HStr ''text/plain'')],
              fw_body = Some (toBase64 (''Local server error: '' @ msg))\<rparr>"
    using assms by (simp add: forwardToLocal_def utf8_encode_def del: toBase64.simps)
  have c: "contentType [(''content-type'', HStr ''text/plain'')] = Inr ''text/plain''"
    by code_simp
  have h: "copy_headers [(''content-type'', HStr ''text/plain'')] []
           = [(''content-type'', HStr ''text/plain'')]"
    by code_simp
  have n: "\<not> includes_str ''text/plain'' ''text/html''"
    by code_simp
  have e: "toBase64 (''Local server error: '' @ msg) \<noteq> []"
    by (simp add: toBase64_empty del: toBase64.simps)
  have d: "deliver tunnelId 502 [(''content-type'', HStr ''text/plain'')]
             (BodyStr (toBase64 (''Local server error: '' @ msg)))
           = Inr \<lparr>hr_status = 502, hr_headers = [(''content-type'', HStr ''text/plain'')],
                  hr_body = ''Local server error: '' @ msg\<rparr>"
    unfolding deliver_def c h using n e
    by (simp add: fromBase64_toBase64 send_def write_head_def valid_status_def has_trailer_def
        del: toBase64.simps)
  show ?thesis
    using f d by (simp add: client_message_def relayed_response_def body_to_json_def
        fromBase64_toBase64 del: toBase64.simps)
qed

theorem local_error_502_witness:
  "client_message (\<lambda>x. Some local_4444) ''http://localhost:4444''
      (Json (Request ''r1'' ''GET'' ''/hello'' [] None)) (LocalRequestError ''connect ECONNREFUSED'')
   = Completed
       [Response ''r1'' 502 [(''content-type'', HStr ''text/plain'')]
          (BodyStr ''TG9jYWwgc2VydmVyIGVycm9yOiBjb25uZWN0IEVDT05OUkVGVVNFRA=='')]
       [LogReq ''GET'' ''/hello'', LogErr ''Local server error: connect ECONNREFUSED'',
        LogOk 502 ''/hello'']
   \<and> relayed_response (\<lambda>x. Some local_4444) ''http://localhost:4444'' ''abc123'' ''/hello''
         (LocalRequestError ''connect ECONNREFUSED'')
       = Inr \<lparr>hr_status = 502, hr_headers = [(''content-type'', HStr ''text/plain'')],
              hr_body = ''Local server error: connect ECONNREFUSED''\<rparr>"
proof -
  have p: "(\<lambda>x. Some local_4444) (targetUrl ''http://localhost:4444'' ''/hello'') = Some local_4444"
    by simp
  have b: "toBase64 ''Local server error: connect ECONNREFUSED''
           = ''TG9jYWwgc2VydmVyIGVycm9yOiBjb25uZWN0IEVDT05OUkVGVVNFRA==''"
    by code_simp
  have l: "client_message (\<lambda>x. Some local_4444) ''http://localhost:4444''
             (Json (Request ''r1'' ''GET'' ''/hello'' [] None)) (LocalRequestError ''connect ECONNREFUSED'')
           = Completed
               [Response ''r1'' 502 [(''content-type'', HStr ''text/plain'')]
                  (BodyStr (toBase64 ''Local server error: connect ECONNREFUSED''))]
               [LogReq ''GET'' ''/hello'', LogErr ''Local server error: connect ECONNREFUSED'',
                LogOk 502 ''/hello'']"
    by (simp add: client_message_def forwardToLocal_def body_to_json_def utf8_encode_def
        del: toBase64.simps)
  from local_error_502 [OF p, where msg = "''connect ECONNREFUSED''" and reqId = "''r1''"
      and meth = "''GET''" and hdrs = "[]" and body = None and tunnelId = "''abc123''"]
  have "relayed_response (\<lambda>x. Some local_4444) ''http://localhost:4444'' ''abc123'' ''/hello''
          (LocalRequestError ''connect ECONNREFUSED'')
        = Inr \<lparr>hr_status = 502, hr_headers = [(''content-type'', HStr ''text/plain'')],
               hr_body = ''Local server error: connect ECONNREFUSED''\<rparr>"
    by (simp del: toBase64.simps)
  then show ?thesis
    using l b by (simp del: toBase64.simps)
qed

subsection \<open>Malformed input\<close>


lemma message_try_console: "console (fst (message_try tid d s)) = console s"
  by (cases d rule: inbound.exhaust)
     (auto simp add: message_try_def clearTimeout_def set_pending_def respond_def Let_def
        split: message.splits option.splits sum.splits)

lemma message_try_registry:
  "tunnels (fst (message_try tid d s)) = tunnels s
   \<and> readyState (fst (message_try tid d s)) = readyState s
   \<and> closure (fst (message_try tid d s)) = closure s"
  by (cases d rule: inbound.exhaust)
     (auto simp add: message_try_def clearTimeout_def set_pending_def respond_def Let_def
        split: message.splits option.splits sum.splits)

text \<open>
  What holds of malformed input. On the client, a target URL that does not parse makes
  the forwarding agent resolve with status 400, no headers and no body, which the
  message callback sends back as the response to the request; data that does not parse
  as JSON makes the client's callback return without sending or printing anything. On
  the relay, data that does not parse adds one error line to the console and changes
  nothing else; whatever the data is, the callback returns: an error thrown inside it
  ends up as a console line, and the registry, the sockets' states and the registered
  callbacks are as they were.
\<close>

lemma malformed_input_contained:
  "(parse (targetUrl localUrl path) = None \<longrightarrow>
      forwardToLocal parse localUrl path outcome
        = \<lparr>fw_status = 400, fw_headers = [], fw_body = None\<rparr>
      \<and> client_message parse localUrl (Json (Request reqId meth path hdrs body)) outcome
        = Completed [Response reqId 400 [] BodyNull] [LogReq meth path, LogOk 400 path])
   \<and> client_message parse localUrl Unparseable outcome = Completed [] []
   \<and> (closure s w = Some tid \<longrightarrow>
        ws_message w Unparseable s = s\<lparr>console := console s @ [WsMessageError SyntaxError]\<rparr>)
   \<and> (closure s w = Some tid \<longrightarrow>
        console (ws_message w d s)
          = console s @ (case snd (message_try tid d s) of
                           None \<Rightarrow> [] | Some e \<Rightarrow> [WsMessageError e]))
   \<and> tunnels (ws_message w d s) = tunnels s
   \<and> readyState (ws_message w d s) = readyState s
   \<and> closure (ws_message w d s) = closure s"
proof -
  have reg: "tunnels (ws_message w d s) = tunnels s
             \<and> readyState (ws_message w d s) = readyState s
             \<and> closure (ws_message w d s) = closure s"
  proof (cases "closure s w")
    case None
    then show ?thesis by (simp add: ws_message_def)
  next
    case (Some tid')
    obtain s' e where m: "message_try tid' d s = (s', e)"
      by (cases "message_try tid' d s")
    with message_try_registry [of tid' d s] Some show ?thesis
      by (cases e) (simp_all add: ws_message_def)
  qed
  have con: "console (ws_message w d s)
          = console s @ (case snd (message_try tid d s) of
                           None \<Rightarrow> [] | Some e \<Rightarrow> [WsMessageError e])"
    if "closure s w = Some tid"
  proof -
    obtain s' e where m: "message_try tid d s = (s', e)"
      by (cases "message_try tid d s")
    with message_try_console [of tid d s] that show ?thesis
      by (cases e) (simp_all add: ws_message_def)
  qed
  show ?thesis
    using reg con
    by (simp add: forwardToLocal_def client_message_def body_to_json_def ws_message_def
        message_try_def)
qed

lemma malformed_input_contained_example:
  "forwardToLocal (\<lambda>x. None) ''not a url'' ''/hello'' LocalResponseError
     = \<lparr>fw_status = 400, fw_headers = [], fw_body = None\<rparr>
   \<and> client_message (\<lambda>x. None) ''not a url'' (Json (Request ''r1'' ''GET'' ''/hello'' [] None))
         LocalResponseError
       = Completed [Response ''r1'' 400 [] BodyNull] [LogReq ''GET'' ''/hello'', LogOk 400 ''/hello'']
   \<and> console (run [Connection 1 (Some ''abc123''), WsMessage 1 Unparseable, WsMessage 1 JsonNull]
                 relay_init)
       = [TunnelConnected ''abc123'', WsMessageError SyntaxError, WsMessageError TypeError]
   \<and> tunnels (run [Connection 1 (Some ''abc123''), WsMessage 1 Unparseable, WsMessage 1 JsonNull]
                 relay_init) ''abc123'' = Some 0"
proof -
  let ?s1 = "run [Connection 1 (Some ''abc123'')] relay_init"
  let ?s2 = "ws_message 1 Unparseable ?s1"
  have p: "(\<lambda>x. None) (targetUrl ''not a url'' ''/hello'') = None"
    by simp
  have c1: "closure ?s1 1 = Some ''abc123''" and c2: "closure ?s2 1 = Some ''abc123''"
    by (simp_all add: relay_defs)
  note a = malformed_input_contained [where parse = "\<lambda>x. None" and localUrl = "''not a url''"
      and path = "''/hello''" and outcome = LocalResponseError and reqId = "''r1''"
      and meth = "''GET''" and hdrs = "[]" and body = None
      and s = ?s1 and w = 1 and tid = "''abc123''" and d = Unparseable]
  note b = malformed_input_contained [where s = ?s2 and w = 1 and tid = "''abc123''"
      and d = JsonNull]
  have e: "snd (message_try ''abc123'' JsonNull ?s2) = Some TypeError"
    by (simp add: message_try_def)
  have s1: "console ?s1 = [TunnelConnected ''abc123'']" "tunnels ?s1 ''abc123'' = Some 0"
    by (simp_all add: relay_defs)
  from a p c1 have a1: "?s2 = ?s1\<lparr>console := console ?s1 @ [WsMessageError SyntaxError]\<rparr>"
    and f: "forwardToLocal (\<lambda>x. None) ''not a url'' ''/hello'' LocalResponseError
              = \<lparr>fw_status = 400, fw_headers = [], fw_body = None\<rparr>"
    and g: "client_message (\<lambda>x. None) ''not a url'' (Json (Request ''r1'' ''GET'' ''/hello'' [] None))
              LocalResponseError
            = Completed [Response ''r1'' 400 [] BodyNull] [LogReq ''GET'' ''/hello'', LogOk 400 ''/hello'']"
    by simp_all
  from b c2 e have b1: "console (ws_message 1 JsonNull ?s2) = console ?s2 @ [WsMessageError TypeError]"
    and b2: "tunnels (ws_message 1 JsonNull ?s2) = tunnels ?s2"
    by simp_all
  have s2: "console ?s2 = [TunnelConnected ''abc123'', WsMessageError SyntaxError]"
    "tunnels ?s2 ''abc123'' = Some 0"
    unfolding a1 using s1 by simp_all
  have "console (ws_message 1 JsonNull ?s2)
        = [TunnelConnected ''abc123'', WsMessageError SyntaxError, WsMessageError TypeError]"
    using s2 by (simp only: b1) simp
  moreover have "tunnels (ws_message 1 JsonNull ?s2) ''abc123'' = Some 0"
    using s2 by (simp only: b2)
  ultimately show ?thesis
    using f g by simp
qed


text \<open>
  Claim C9, where the code departs from it. The client receives the frame \<^verbatim>\<open>null\<close>.
  \<^verbatim>\<open>JSON.parse\<close> returns \<^verbatim>\<open>null\<close> without throwing, so the \<^verbatim>\<open>try\<close> of lines 131--135,
  which holds nothing but that call, is left normally; reading \<^verbatim>\<open>msg.type\<close> on line 137
  then throws a TypeError that nothing catches. The error leaves the callback (its
  promise is rejected), and the process ends with exit code 1, whatever the local
  target is.
\<close>

theorem null_frame_ends_client:
  "client_message parse localUrl JsonNull outcome = Rejected TypeError
   \<and> after_message (client_message parse localUrl JsonNull outcome) = Exited 1"
  by (simp add: client_message_def after_message_def)

subsection \<open>Bodies through the tunnel\<close>













subsection \<open>Relay: an exchange nothing refers to is never answered\<close>


lemma in_set_update: "x \<in> set (AList.update k v al) \<Longrightarrow> x = (k, v) \<or> x \<in> set al"
  by (induction al) (auto split: if_splits)

lemma in_set_delete: "x \<in> set (AList.delete k al) \<Longrightarrow> x \<in> set al"
  by (auto simp add: AList.delete_eq)

lemma quiet_refl: "unreferenced res s \<Longrightarrow> quiet res s s"
  by (simp add: quiet_def)

lemma quiet_trans: "quiet res s s' \<Longrightarrow> quiet res s' s'' \<Longrightarrow> quiet res s s''"
  by (simp add: quiet_def)

lemma quiet_respond:
  "unreferenced res s \<Longrightarrow> r \<noteq> res \<Longrightarrow> quiet res s (respond r st hs b s)"
  by (simp add: quiet_def unreferenced_def respond_def outcomes_def pending_of_def)

lemma quiet_clearTimeout:
  "unreferenced res s \<Longrightarrow> quiet res s (clearTimeout t s)"
  by (cases t) (simp_all add: quiet_def unreferenced_def clearTimeout_def outcomes_def pending_of_def)

lemma quiet_set_pending:
  "unreferenced res s \<Longrightarrow> \<forall>k p. (k, p) \<in> set ps \<longrightarrow> p_res p \<noteq> res \<Longrightarrow>
   quiet res s (set_pending a ps s)"
  by (simp add: quiet_def unreferenced_def set_pending_def outcomes_def pending_of_def)

lemma quiet_delete:
  assumes "unreferenced res s"
  shows "quiet res s (set_pending a (AList.delete k (pending_of s a)) s)"
proof (rule quiet_set_pending [OF assms])
  show "\<forall>k' p. (k', p) \<in> set (AList.delete k (pending_of s a)) \<longrightarrow> p_res p \<noteq> res"
    using assms unfolding unreferenced_def by (blast dest: in_set_delete)
qed

lemma quiet_update:
  assumes "unreferenced res s" "p_res v \<noteq> res"
  shows "quiet res s (set_pending a (AList.update k v (pending_of s a)) s)"
proof (rule quiet_set_pending [OF assms(1)])
  show "\<forall>k' p. (k', p) \<in> set (AList.update k v (pending_of s a)) \<longrightarrow> p_res p \<noteq> res"
    using assms unfolding unreferenced_def by (blast dest: in_set_update)
qed

lemma quietD: "quiet res s s' \<Longrightarrow> unreferenced res s'"
  by (simp add: quiet_def)


lemma quiet_fields:
  assumes "unreferenced res s"
  shows "quiet res s (s\<lparr>console := x1\<rparr>)" "quiet res s (s\<lparr>wire := x2\<rparr>)"
    "quiet res s (s\<lparr>tunnels := x3\<rparr>)" "quiet res s (s\<lparr>readyState := x4\<rparr>)"
    "quiet res s (s\<lparr>closure := x5\<rparr>)" "quiet res s (s\<lparr>next_timer := x6\<rparr>)"
    "quiet res s (s\<lparr>next_addr := x7\<rparr>)"
  using assms by (simp_all add: quiet_def unreferenced_def outcomes_def pending_of_def)

lemma quiet_awaiting:
  "unreferenced res s \<Longrightarrow> r \<noteq> res \<Longrightarrow> quiet res s (s\<lparr>awaiting := (awaiting s)(r := x)\<rparr>)"
  by (simp add: quiet_def unreferenced_def outcomes_def pending_of_def)

lemma quiet_arm:
  "unreferenced res s \<Longrightarrow> tm_res c \<noteq> res \<Longrightarrow> quiet res s (s\<lparr>timers := (timers s)(t \<mapsto> c)\<rparr>)"
  by (simp add: quiet_def unreferenced_def outcomes_def pending_of_def)

lemma quiet_fail_all:
  "unreferenced res s \<Longrightarrow> \<forall>k p. (k, p) \<in> set ps \<longrightarrow> p_res p \<noteq> res \<Longrightarrow>
   quiet res s (fail_all ps s)"
proof (induction ps arbitrary: s)
  case Nil
  then show ?case by (simp add: quiet_refl)
next
  case (Cons x ps)
  obtain k p where x: "x = (k, p)" by (cases x)
  let ?s1 = "clearTimeout (p_timeout p) s"
  let ?s2 = "respond (p_res p) 503 [] ''Tunnel disconnected.'' ?s1"
  have ne: "p_res p \<noteq> res" using Cons.prems(2) x by simp
  have q1: "quiet res s ?s1" by (rule quiet_clearTimeout [OF Cons.prems(1)])
  have q2: "quiet res ?s1 ?s2" by (rule quiet_respond [OF quietD [OF q1] ne])
  have q3: "quiet res ?s2 (fail_all ps ?s2)"
    using Cons.IH [OF quietD [OF q2]] Cons.prems(2) by simp
  show ?case
    using quiet_trans [OF quiet_trans [OF q1 q2] q3] x by simp
qed

lemma quiet_timeout_fires:
  assumes u: "unreferenced res s"
  shows "quiet res s (timeout_fires t s)"
proof (cases "timers s t")
  case None
  then show ?thesis by (simp add: timeout_fires_def quiet_refl [OF u])
next
  case (Some c)
  let ?s1 = "clearTimeout (Some t) s"
  let ?s2 = "set_pending (tm_tunnel c) (AList.delete (tm_reqId c) (pending_of ?s1 (tm_tunnel c))) ?s1"
  let ?s3 = "respond (tm_res c) 504 [] ''Gateway Timeout'' ?s2"
  have ne: "tm_res c \<noteq> res" using u Some by (auto simp add: unreferenced_def)
  have q1: "quiet res s ?s1" by (rule quiet_clearTimeout [OF u])
  have q2: "quiet res ?s1 ?s2" by (rule quiet_delete [OF quietD [OF q1]])
  have q3: "quiet res ?s2 ?s3" by (rule quiet_respond [OF quietD [OF q2] ne])
  have "timeout_fires t s = ?s3 \<or> timeout_fires t s = ?s1"
    using Some by (simp add: timeout_fires_def clearTimeout_def Let_def)
  then show ?thesis
    using q1 quiet_trans [OF quiet_trans [OF q1 q2] q3] by auto
qed

lemma quiet_message_try:
  assumes u: "unreferenced res s"
  shows "quiet res s (fst (message_try tid d s))"
proof (cases "\<exists>reqId status hdrs body a p. d = Json (Response reqId status hdrs body)
         \<and> tunnels s tid = Some a \<and> map_of (pending_of s a) reqId = Some p")
  case False
  then have "fst (message_try tid d s) = s"
    by (auto simp add: message_try_def split: inbound.splits message.splits option.splits)
  then show ?thesis by (simp add: quiet_refl [OF u])
next
  case True
  then obtain reqId status hdrs body a p where d: "d = Json (Response reqId status hdrs body)"
    and a: "tunnels s tid = Some a" and p: "map_of (pending_of s a) reqId = Some p"
    by blast
  let ?s1 = "clearTimeout (p_timeout p) s"
  let ?s2 = "set_pending a (AList.delete reqId (pending_of ?s1 a)) ?s1"
  have "(reqId, p) \<in> set (pending_of s a)" using p by (rule map_of_SomeD)
  then have ne: "p_res p \<noteq> res" using u by (auto simp add: unreferenced_def)
  have q1: "quiet res s ?s1" by (rule quiet_clearTimeout [OF u])
  have q2: "quiet res ?s1 ?s2" by (rule quiet_delete [OF quietD [OF q1]])
  have q3: "quiet res ?s2 (respond (p_res p) st hs b ?s2)" for st hs b
    by (rule quiet_respond [OF quietD [OF q2] ne])
  have "fst (message_try tid d s) = ?s2
        \<or> (\<exists>st hs b. fst (message_try tid d s) = respond (p_res p) st hs b ?s2)"
    using d a p by (auto simp add: message_try_def Let_def split: sum.splits)
  then show ?thesis
    using quiet_trans [OF q1 q2] quiet_trans [OF quiet_trans [OF q1 q2] q3] by auto
qed

lemma quiet_ws_message:
  assumes u: "unreferenced res s"
  shows "quiet res s (ws_message w d s)"
proof (cases "closure s w")
  case None
  then show ?thesis by (simp add: ws_message_def quiet_refl [OF u])
next
  case (Some tid)
  obtain s' err where m: "message_try tid d s = (s', err)"
    by (cases "message_try tid d s")
  have q: "quiet res s s'" using quiet_message_try [OF u, of tid d] m by simp
  show ?thesis
    using Some m q quiet_trans [OF q quiet_fields(1) [OF quietD [OF q]]]
    by (cases err) (simp_all add: ws_message_def)
qed

lemma quiet_ws_close:
  assumes u: "unreferenced res s"
  shows "quiet res s (ws_close w s)"
proof (cases "closure s w")
  case None
  then show ?thesis by (simp add: ws_close_def quiet_refl [OF u])
next
  case (Some tid)
  let ?s0 = "s\<lparr>console := console s @ [TunnelDisconnected tid]\<rparr>"
  have q0: "quiet res s ?s0" by (rule quiet_fields(1) [OF u])
  show ?thesis
  proof (cases "tunnels s tid")
    case None
    then show ?thesis using Some q0 by (simp add: ws_close_def Let_def)
  next
    case a: (Some a)
    let ?s1 = "fail_all (pending_of ?s0 a) ?s0"
    have "\<forall>k p. (k, p) \<in> set (pending_of ?s0 a) \<longrightarrow> p_res p \<noteq> res"
      using quietD [OF q0] by (auto simp add: unreferenced_def)
    then have q1: "quiet res ?s0 ?s1"
      by (rule quiet_fail_all [OF quietD [OF q0]])
    have q2: "quiet res ?s1 (?s1\<lparr>tunnels := (tunnels ?s1)(tid := None)\<rparr>)"
      by (rule quiet_fields(3) [OF quietD [OF q1]])
    show ?thesis
      using Some a quiet_trans [OF quiet_trans [OF q0 q1] q2] by (simp add: ws_close_def Let_def)
  qed
qed

lemma quiet_connection:
  assumes u: "unreferenced res s"
  shows "quiet res s (connection w tunnelId s)"
proof -
  have "quiet res s (s\<lparr>console := c, heap := (heap s)(a := \<lparr>t_ws = w, pendingRequests = []\<rparr>),
          tunnels := tn, next_addr := n, wire := wr, closure := cl\<rparr>)" for c a tn n wr cl
    using u by (simp add: quiet_def unreferenced_def outcomes_def pending_of_def)
  then show ?thesis
    using quiet_fields(4) [OF u]
    by (simp add: connection_def split: option.splits)
qed

lemma quiet_tunnel_request:
  assumes u: "unreferenced res s" and ne: "r \<noteq> res"
  shows "quiet res s (tunnel_request r tunnelId reqId s)"
  using quiet_respond [OF u ne] quiet_awaiting [OF u ne]
  by (simp add: tunnel_request_def split: option.splits)

lemma consumed_cases:
  "(tunnel_request r tunnelId reqId s)\<lparr>awaiting := awaiting s\<rparr> = s
   \<or> (tunnel_request r tunnelId reqId s)\<lparr>awaiting := awaiting s\<rparr>
       = respond r 503 [] (offline_page tunnelId) s"
  by (simp add: tunnel_request_def respond_def split: option.splits)

lemma quiet_app_request:
  assumes u: "unreferenced res s" and ne: "r \<noteq> res"
  shows "quiet res s (app_request r meth parser tunnelId reqId s)"
proof (cases "toUpperCase meth = ''OPTIONS''")
  case True
  then show ?thesis
    using quiet_respond [OF u ne] by (simp add: app_request_def)
next
  case False
  show ?thesis
  proof (cases parser)
    case Untouched
    then show ?thesis
      using False quiet_tunnel_request [OF u ne] by (simp add: app_request_def)
  next
    case Consumed
    then show ?thesis
      using False consumed_cases [where r = r and tunnelId = tunnelId and reqId = reqId and s = s]
        quiet_refl [OF u]
        quiet_respond [OF u ne, of 503 "[]" "offline_page tunnelId"]
      by (auto simp add: app_request_def)
  next
    case (Refused st page)
    then show ?thesis
      using False quiet_respond [OF u ne] by (simp add: app_request_def)
  qed
qed

lemma quiet_tunnel_request_body:
  assumes u: "unreferenced res s"
  shows "quiet res s (tunnel_request_body r req send_throws s)"
proof (cases "awaiting s r")
  case None
  then show ?thesis by (simp add: tunnel_request_body_def quiet_refl [OF u])
next
  case (Some w)
  then have ne: "r \<noteq> res" using u by (auto simp add: unreferenced_def)
  let ?a = "aw_tunnel w"
  let ?s1 = "s\<lparr>awaiting := (awaiting s)(r := None)\<rparr>"
  let ?s2 = "set_pending ?a (AList.update (aw_reqId w)
               \<lparr>p_res = r, p_tunnelId = aw_tunnelId w, p_timeout = None\<rparr> (pending_of ?s1 ?a)) ?s1"
  let ?t = "next_timer ?s2"
  let ?s3a = "?s2\<lparr>timers := (timers ?s2)(?t \<mapsto>
               \<lparr>tm_tunnel = ?a, tm_reqId = aw_reqId w, tm_res = r, tm_delay = 30000\<rparr>)\<rparr>"
  let ?s3 = "?s3a\<lparr>next_timer := Suc ?t\<rparr>"
  let ?s4 = "set_pending ?a (AList.update (aw_reqId w)
               \<lparr>p_res = r, p_tunnelId = aw_tunnelId w, p_timeout = Some ?t\<rparr> (pending_of ?s3 ?a)) ?s3"
  let ?s5 = "clearTimeout (Some ?t) ?s4"
  let ?s6 = "set_pending ?a (AList.delete (aw_reqId w) (pending_of ?s4 ?a)) ?s5"
  let ?s7 = "respond r 502 [] ''Failed to forward request to tunnel client.'' ?s6"
  have q1: "quiet res s ?s1" by (rule quiet_awaiting [OF u ne])
  have q2: "quiet res ?s1 ?s2" by (rule quiet_update [OF quietD [OF q1]]) (simp add: ne)
  have q3a: "quiet res ?s2 ?s3a" by (rule quiet_arm [OF quietD [OF q2]]) (simp add: ne)
  have q3: "quiet res ?s3a ?s3" by (rule quiet_fields(6) [OF quietD [OF q3a]])
  have q4: "quiet res ?s3 ?s4" by (rule quiet_update [OF quietD [OF q3]]) (simp add: ne)
  have q04: "quiet res s ?s4"
    by (rule quiet_trans [OF quiet_trans [OF quiet_trans [OF quiet_trans [OF q1 q2] q3a] q3] q4])
  have q5: "quiet res ?s4 ?s5" by (rule quiet_clearTimeout [OF quietD [OF q4]])
  have e: "pending_of ?s4 ?a = pending_of ?s5 ?a"
    by (simp add: clearTimeout_def pending_of_def)
  have q6: "quiet res ?s5 ?s6" unfolding e by (rule quiet_delete [OF quietD [OF q5]])
  have q7: "quiet res ?s6 ?s7" by (rule quiet_respond [OF quietD [OF q6] ne])
  have q07: "quiet res s ?s7"
    by (rule quiet_trans [OF quiet_trans [OF quiet_trans [OF q04 q5] q6] q7])
  have q8: "quiet res s (?s4\<lparr>wire := x\<rparr>)" for x
    by (rule quiet_trans [OF q04 quiet_fields(2) [OF quietD [OF q04]]])
  show ?thesis
  proof (cases send_throws)
    case True
    then have "tunnel_request_body r req send_throws s = ?s7"
      using Some by (simp add: tunnel_request_body_def Let_def)
    then show ?thesis using q07 by simp
  next
    case False
    then show ?thesis
      using Some q8 by (simp add: tunnel_request_body_def Let_def)
  qed
qed

lemma step_quiet:
  assumes u: "unreferenced res s" and e: "\<not> arrival_of res e"
  shows "quiet res s (step e s)"
proof (cases e)
  case (Connection w tunnelId)
  have q: "quiet res s (s\<lparr>readyState := (readyState s)(w := OPEN)\<rparr>)"
    by (rule quiet_fields(4) [OF u])
  show ?thesis
    using Connection quiet_trans [OF q quiet_connection [OF quietD [OF q]]] by simp
next
  case (WsMessage w d)
  then show ?thesis using quiet_ws_message [OF u] by simp
next
  case (WsClosing w)
  then show ?thesis using quiet_fields(4) [OF u] by simp
next
  case (WsClose w)
  have q: "quiet res s (s\<lparr>readyState := (readyState s)(w := CLOSED)\<rparr>)"
    by (rule quiet_fields(4) [OF u])
  show ?thesis
    using WsClose quiet_trans [OF q quiet_ws_close [OF quietD [OF q]]] by simp
next
  case (HttpRequest r meth parser tunnelId reqId)
  then have "r \<noteq> res" using e by simp
  then show ?thesis using HttpRequest quiet_app_request [OF u] by simp
next
  case (HttpTunnel r tunnelId reqId)
  then have "r \<noteq> res" using e by simp
  then show ?thesis using HttpTunnel quiet_tunnel_request [OF u] by simp
next
  case (HttpBody r req send_throws)
  then show ?thesis using quiet_tunnel_request_body [OF u] by simp
next
  case (TimerFires t)
  then show ?thesis using quiet_timeout_fires [OF u] by simp
qed

lemma run_quiet:
  "unreferenced res s \<Longrightarrow> \<forall>e\<in>set es. \<not> arrival_of res e \<Longrightarrow> quiet res s (run es s)"
proof (induction es arbitrary: s)
  case Nil
  then show ?case by (simp add: quiet_refl)
next
  case (Cons e es)
  have q: "quiet res s (step e s)"
    using step_quiet [of res s e] Cons.prems by simp
  have "quiet res (step e s) (run es (step e s))"
    using Cons.IH [OF quietD [OF q]] Cons.prems(2) by simp
  then show ?case
    using quiet_trans [OF q] by simp
qed

subsection \<open>Relay: timers\<close>

text \<open>
  Delivering a response disarms the timer of its pending entry and removes the entry, so
  that neither the timer nor a second response can answer the exchange again; handlers
  only ever remove timers or arm one of 30000 ms, so every timer armed in a run of the
  relay has that delay.
\<close>


lemma response_disarms_timer:
  assumes c: "closure s w = Some tid" and a: "tunnels s tid = Some a"
    and p: "map_of (pending_of s a) reqId = Some p" and t: "p_timeout p = Some t"
  shows "timers (ws_message w (Json (Response reqId status hdrs body)) s) t = None
         \<and> map_of (pending_of (ws_message w (Json (Response reqId status hdrs body)) s) a) reqId = None"
proof -
  let ?s1 = "clearTimeout (p_timeout p) s"
  let ?s2 = "set_pending a (AList.delete reqId (pending_of ?s1 a)) ?s1"
  have s2: "timers ?s2 t = None" "map_of (pending_of ?s2 a) reqId = None"
    using t by (simp_all add: clearTimeout_def set_pending_def pending_of_def map_of_delete)
  have m: "fst (message_try tid (Json (Response reqId status hdrs body)) s) = ?s2
        \<or> (\<exists>st hs b. fst (message_try tid (Json (Response reqId status hdrs body)) s)
                       = respond (p_res p) st hs b ?s2)"
    using a p by (auto simp add: message_try_def Let_def split: sum.splits)
  have r: "timers (respond r st hs b ?s2) t = None
           \<and> map_of (pending_of (respond r st hs b ?s2) a) reqId = None" for r st hs b
    using s2 by (simp add: respond_def pending_of_def)
  obtain s' err where e: "message_try tid (Json (Response reqId status hdrs body)) s = (s', err)"
    by (cases "message_try tid (Json (Response reqId status hdrs body)) s")
  have "timers s' t = None \<and> map_of (pending_of s' a) reqId = None"
    using m e s2 r by auto
  then show ?thesis
    using c e by (cases err) (simp_all add: ws_message_def pending_of_def)
qed

lemma fail_all_timers: "timers (fail_all ps s) t = Some c \<Longrightarrow> timers s t = Some c"
proof (induction ps arbitrary: s)
  case Nil
  then show ?case by simp
next
  case (Cons x ps)
  obtain k p where x: "x = (k, p)" by (cases x)
  have "timers (respond (p_res p) 503 [] ''Tunnel disconnected.'' (clearTimeout (p_timeout p) s)) t
        = Some c"
    using Cons.IH Cons.prems x by simp
  then show ?case
    by (cases "p_timeout p") (auto simp add: respond_def clearTimeout_def split: if_splits)
qed

lemma ws_close_timers:
  "timers (ws_close w s) t = Some c \<Longrightarrow> timers s t = Some c"
proof (cases "closure s w")
  case None
  then show "timers (ws_close w s) t = Some c \<Longrightarrow> timers s t = Some c"
    by (simp add: ws_close_def)
next
  case (Some tid)
  assume a: "timers (ws_close w s) t = Some c"
  let ?s0 = "s\<lparr>console := console s @ [TunnelDisconnected tid]\<rparr>"
  show "timers s t = Some c"
  proof (cases "tunnels s tid")
    case None
    then show ?thesis using a Some by (simp add: ws_close_def Let_def)
  next
    case b: (Some x)
    have "timers (fail_all (pending_of ?s0 x) ?s0) t = Some c"
      using a Some b by (simp add: ws_close_def Let_def)
    then have "timers ?s0 t = Some c" by (rule fail_all_timers)
    then show ?thesis by simp
  qed
qed

lemma message_try_timers:
  "timers (fst (message_try tid d s)) t = Some c \<Longrightarrow> timers s t = Some c"
proof (cases "\<exists>reqId status hdrs body a p. d = Json (Response reqId status hdrs body)
         \<and> tunnels s tid = Some a \<and> map_of (pending_of s a) reqId = Some p")
  case False
  then have "fst (message_try tid d s) = s"
    by (auto simp add: message_try_def split: inbound.splits message.splits option.splits)
  then show "timers (fst (message_try tid d s)) t = Some c \<Longrightarrow> timers s t = Some c" by simp
next
  case True
  assume a: "timers (fst (message_try tid d s)) t = Some c"
  obtain reqId status hdrs body x p where d: "d = Json (Response reqId status hdrs body)"
    and x: "tunnels s tid = Some x" and p: "map_of (pending_of s x) reqId = Some p"
    using True by blast
  have "timers (fst (message_try tid d s)) = timers (clearTimeout (p_timeout p) s)"
    using d x p by (simp add: message_try_def Let_def set_pending_def respond_def split: sum.splits)
  then have "timers (clearTimeout (p_timeout p) s) t = Some c" using a by simp
  then show "timers s t = Some c"
    by (cases "p_timeout p") (simp_all add: clearTimeout_def split: if_splits)
qed

lemma tunnel_request_body_timers:
  assumes "timers (tunnel_request_body r req th s) t = Some c"
  shows "timers s t = Some c \<or> tm_delay c = 30000"
proof (cases "awaiting s r")
  case None
  then show ?thesis using assms by (simp add: tunnel_request_body_def)
next
  case (Some w)
  have "timers (tunnel_request_body r req th s)
        = (if th then (timers s)(next_timer s := None)
           else (timers s)(next_timer s \<mapsto>
                  \<lparr>tm_tunnel = aw_tunnel w, tm_reqId = aw_reqId w, tm_res = r, tm_delay = 30000\<rparr>))"
    using Some
    by (simp add: tunnel_request_body_def set_pending_def respond_def clearTimeout_def Let_def)
  then show ?thesis
    using assms by (cases th) (auto split: if_splits)
qed

lemma timeout_fires_timers:
  "timers (timeout_fires t' s) t = Some c \<Longrightarrow> timers s t = Some c"
proof (cases "timers s t'")
  case None
  then show "timers (timeout_fires t' s) t = Some c \<Longrightarrow> timers s t = Some c"
    by (simp add: timeout_fires_def)
next
  case (Some x)
  assume a: "timers (timeout_fires t' s) t = Some c"
  have "timers (timeout_fires t' s) = (timers s)(t' := None)"
    using Some by (simp add: timeout_fires_def set_pending_def respond_def Let_def)
  then show "timers s t = Some c"
    using a by (simp split: if_splits)
qed

lemma step_timers:
  assumes "timers (step e s) t = Some c"
  shows "timers s t = Some c \<or> tm_delay c = 30000"
proof (cases e)
  case (Connection w tunnelId)
  then have "timers (step e s) = timers s"
    by (simp add: connection_def split: option.splits)
  then show ?thesis using assms by simp
next
  case (WsMessage w d)
  show ?thesis
  proof (cases "closure s w")
    case None
    then show ?thesis using assms WsMessage by (simp add: ws_message_def)
  next
    case (Some tid)
    obtain s' err where m: "message_try tid d s = (s', err)"
      by (cases "message_try tid d s")
    have "timers (step e s) = timers s'"
      using WsMessage Some m by (cases err) (simp_all add: ws_message_def)
    then have "timers (fst (message_try tid d s)) t = Some c"
      using assms m by simp
    then have "timers s t = Some c"
      by (rule message_try_timers)
    then show ?thesis by simp
  qed
next
  case (WsClosing w)
  then show ?thesis using assms by simp
next
  case (WsClose w)
  then have "timers (ws_close w (s\<lparr>readyState := (readyState s)(w := CLOSED)\<rparr>)) t = Some c"
    using assms by simp
  then have "timers (s\<lparr>readyState := (readyState s)(w := CLOSED)\<rparr>) t = Some c"
    by (rule ws_close_timers)
  then show ?thesis by simp
next
  case (HttpRequest r meth parser tunnelId reqId)
  then have "timers (step e s) = timers s"
    by (simp add: app_request_def tunnel_request_def respond_def
        split: option.splits body_parser.splits)
  then show ?thesis using assms by simp
next
  case (HttpTunnel r tunnelId reqId)
  then have "timers (step e s) = timers s"
    by (simp add: tunnel_request_def respond_def split: option.splits)
  then show ?thesis using assms by simp
next
  case (HttpBody r req send_throws)
  then have "timers (tunnel_request_body r req send_throws s) t = Some c"
    using assms by simp
  then show ?thesis
    by (rule tunnel_request_body_timers)
next
  case (TimerFires t')
  then have "timers (timeout_fires t' s) t = Some c"
    using assms by simp
  then have "timers s t = Some c"
    by (rule timeout_fires_timers)
  then show ?thesis by simp
qed

lemma every_timer_30s:
  "(\<And>t c. timers s t = Some c \<Longrightarrow> tm_delay c = 30000) \<Longrightarrow>
   timers (run es s) t = Some c \<Longrightarrow> tm_delay c = 30000"
proof (induction es arbitrary: s)
  case Nil
  then show ?case by simp
next
  case (Cons e es)
  have "tm_delay c' = 30000" if "timers (step e s) t' = Some c'" for t' c'
    using step_timers [OF that] Cons.prems(1) by blast
  then show ?case
    using Cons.IH [of "step e s"] Cons.prems(2) by simp
qed

lemma every_timer_30s_from_start:
  "timers (run es relay_init) t = Some c \<Longrightarrow> tm_delay c = 30000"
  using every_timer_30s [of relay_init es t c] by (simp add: relay_init_def)

subsection \<open>Relay: outcomes of a request\<close>


lemma stale_response_ignored:
  assumes "closure s w = Some tid"
    and "tunnels s tid = None \<or> (\<exists>a. tunnels s tid = Some a \<and> map_of (pending_of s a) reqId = None)"
  shows "ws_message w (Json (Response reqId status hdrs body)) s = s"
  using assms by (auto simp add: ws_message_def message_try_def)

lemma connection_registers:
  assumes "tid \<noteq> []"
  shows "tunnels (connection w (Some tid) s) tid = Some (next_addr s)
         \<and> heap (connection w (Some tid) s) (next_addr s) = \<lparr>t_ws = w, pendingRequests = []\<rparr>
         \<and> (\<forall>a. a \<noteq> next_addr s \<longrightarrow> heap (connection w (Some tid) s) a = heap s a)
         \<and> timers (connection w (Some tid) s) = timers s
         \<and> responses (connection w (Some tid) s) = responses s"
  using assms by (simp add: connection_def)

text \<open>
  Claim C1, where the code departs from it. A request is sent down an open tunnel, and
  the client answers with a \<open>response\<close> message whose \<open>content-type\<close> header is the
  number 5. The callback removes the pending entry and clears the timer, then throws
  while reading the content type; the error is logged and nothing is written to the
  exchange. From then on no event whatever (short of the same exchange arriving anew)
  writes a response to it: the request has no outcome at all.
\<close>

theorem swallowed_response_no_outcome:
  "wire (run [Connection 1 (Some ''abc123''), HttpTunnel 7 ''abc123'' ''r1'',
              HttpBody 7 get_hello False] relay_init)
     = [(1, Connected ''abc123''),
        (1, Request ''r1'' ''GET'' ''/hello'' [(''accept'', HStr ''*/*'')] None)]
   \<and> console (run [Connection 1 (Some ''abc123''), HttpTunnel 7 ''abc123'' ''r1'',
                   HttpBody 7 get_hello False,
                   WsMessage 1 (Json (Response ''r1'' 200 [(''content-type'', HNum 5)] BodyNull))]
                relay_init)
     = [TunnelConnected ''abc123'', WsMessageError TypeError]
   \<and> ((\<forall>e\<in>set es. \<not> arrival_of 7 e) \<longrightarrow>
        outcomes (run es (run [Connection 1 (Some ''abc123''), HttpTunnel 7 ''abc123'' ''r1'',
                   HttpBody 7 get_hello False,
                   WsMessage 1 (Json (Response ''r1'' 200 [(''content-type'', HNum 5)] BodyNull))]
                relay_init)) 7 = [])"
proof -
  let ?s = "run [Connection 1 (Some ''abc123''), HttpTunnel 7 ''abc123'' ''r1'',
                 HttpBody 7 get_hello False,
                 WsMessage 1 (Json (Response ''r1'' 200 [(''content-type'', HNum 5)] BodyNull))]
              relay_init"
  have c: "contentType [(''content-type'', HNum 5)] = Inl TypeError"
    by (simp add: contentType_def)
  have d: "deliver ''abc123'' 200 [(''content-type'', HNum 5)] BodyNull = Inl TypeError"
    by (simp add: deliver_def c)
  have u: "unreferenced 7 ?s" and o: "outcomes ?s 7 = []"
    and l: "console ?s = [TunnelConnected ''abc123'', WsMessageError TypeError]"
    by (simp_all add: relay_defs d unreferenced_def)
  have w: "wire (run [Connection 1 (Some ''abc123''), HttpTunnel 7 ''abc123'' ''r1'',
              HttpBody 7 get_hello False] relay_init)
     = [(1, Connected ''abc123''),
        (1, Request ''r1'' ''GET'' ''/hello'' [(''accept'', HStr ''*/*'')] None)]"
    by (simp add: relay_defs)
  have "outcomes (run es ?s) 7 = []" if "\<forall>e\<in>set es. \<not> arrival_of 7 e"
    using run_quiet [OF u that] o by (simp add: quiet_def)
  then show ?thesis
    using w l by blast
qed

theorem swallowed_response_no_outcome_witness:
  "outcomes (run [Connection 1 (Some ''abc123''), HttpTunnel 7 ''abc123'' ''r1'',
                  HttpBody 7 get_hello False,
                  WsMessage 1 (Json (Response ''r1'' 200 [(''content-type'', HNum 5)] BodyNull)),
                  TimerFires 0,
                  WsMessage 1 (Json (Response ''r1'' 200 [] BodyNull)),
                  WsClose 1] relay_init) 7 = []"
proof -
  have "\<forall>e\<in>set [TimerFires 0, WsMessage 1 (Json (Response ''r1'' 200 [] BodyNull)), WsClose 1].
          \<not> arrival_of 7 e"
    by simp
  with swallowed_response_no_outcome
         [of "[TimerFires 0, WsMessage 1 (Json (Response ''r1'' 200 [] BodyNull)), WsClose 1]"]
  have "outcomes (run [TimerFires 0, WsMessage 1 (Json (Response ''r1'' 200 [] BodyNull)), WsClose 1]
           (run [Connection 1 (Some ''abc123''), HttpTunnel 7 ''abc123'' ''r1'',
                   HttpBody 7 get_hello False,
                   WsMessage 1 (Json (Response ''r1'' 200 [(''content-type'', HNum 5)] BodyNull))]
                relay_init)) 7 = []"
    by blast
  then show ?thesis by simp
qed

text \<open>
  Claim C2, where the code departs from it. Socket 1 registers tunnel \<open>abc123\<close> and
  request \<open>r1\<close> is sent to it; socket 2 registers the same id, replacing the entry, and
  request \<open>r2\<close> is sent to it. When socket 1 closes, its \<open>close\<close> callback looks the
  tunnel up by id, finds the entry of socket 2, answers \<open>r2\<close> with 503 and deletes the
  entry of socket 2, which is still open; \<open>r1\<close> gets no answer from the callback (its
  timer stays armed and is what answers it later).
\<close>

theorem superseded_close_fails_new_connection:
  "tunnels (run [Connection 1 (Some ''abc123''), HttpTunnel 7 ''abc123'' ''r1'',
                 HttpBody 7 get_hello False, Connection 2 (Some ''abc123''),
                 HttpTunnel 8 ''abc123'' ''r2'', HttpBody 8 get_hello False] relay_init) ''abc123''
     = Some 1
   \<and> map fst (pending_of (run [Connection 1 (Some ''abc123''), HttpTunnel 7 ''abc123'' ''r1'',
                 HttpBody 7 get_hello False, Connection 2 (Some ''abc123''),
                 HttpTunnel 8 ''abc123'' ''r2'', HttpBody 8 get_hello False] relay_init) 0) = [''r1'']
   \<and> map fst (pending_of (run [Connection 1 (Some ''abc123''), HttpTunnel 7 ''abc123'' ''r1'',
                 HttpBody 7 get_hello False, Connection 2 (Some ''abc123''),
                 HttpTunnel 8 ''abc123'' ''r2'', HttpBody 8 get_hello False] relay_init) 1) = [''r2'']
   \<and> responses (run [Connection 1 (Some ''abc123''), HttpTunnel 7 ''abc123'' ''r1'',
                 HttpBody 7 get_hello False, Connection 2 (Some ''abc123''),
                 HttpTunnel 8 ''abc123'' ''r2'', HttpBody 8 get_hello False, WsClose 1] relay_init)
     = [(8, \<lparr>hr_status = 503, hr_headers = [], hr_body = ''Tunnel disconnected.''\<rparr>)]
   \<and> tunnels (run [Connection 1 (Some ''abc123''), HttpTunnel 7 ''abc123'' ''r1'',
                 HttpBody 7 get_hello False, Connection 2 (Some ''abc123''),
                 HttpTunnel 8 ''abc123'' ''r2'', HttpBody 8 get_hello False, WsClose 1] relay_init)
        ''abc123'' = None
   \<and> readyState (run [Connection 1 (Some ''abc123''), HttpTunnel 7 ''abc123'' ''r1'',
                 HttpBody 7 get_hello False, Connection 2 (Some ''abc123''),
                 HttpTunnel 8 ''abc123'' ''r2'', HttpBody 8 get_hello False, WsClose 1] relay_init) 2
     = OPEN
   \<and> timers (run [Connection 1 (Some ''abc123''), HttpTunnel 7 ''abc123'' ''r1'',
                 HttpBody 7 get_hello False, Connection 2 (Some ''abc123''),
                 HttpTunnel 8 ''abc123'' ''r2'', HttpBody 8 get_hello False, WsClose 1] relay_init) 0
     = Some \<lparr>tm_tunnel = 0, tm_reqId = ''r1'', tm_res = 7, tm_delay = 30000\<rparr>
   \<and> timers (run [Connection 1 (Some ''abc123''), HttpTunnel 7 ''abc123'' ''r1'',
                 HttpBody 7 get_hello False, Connection 2 (Some ''abc123''),
                 HttpTunnel 8 ''abc123'' ''r2'', HttpBody 8 get_hello False, WsClose 1] relay_init) 1
     = None"
  by (simp add: relay_defs)

subsection \<open>Relay: the HTML path rewriter\<close>


lemma getSubstitution_plain:
  "CHR ''$'' \<notin> set t \<Longrightarrow> getSubstitution m b a caps t = t"
  by (induction m b a caps t rule: getSubstitution.induct) auto

lemma getSubstitution_group_1:
  assumes "CHR ''$'' \<notin> set t" "t \<noteq> []" "\<not> is_digit (hd t)"
  shows "getSubstitution m b a [g] (''$1'' @ t) = g @ t"
proof -
  obtain c u where t: "t = c # u" using assms(2) by (cases t) auto
  have d: "is_digit (CHR ''1'')" "digit_value (CHR ''1'') = 1"
    by (simp_all add: is_digit_def digit_value_def code_def)
  have "getSubstitution m b a [g] (CHR ''$'' # CHR ''1'' # c # u) = g @ getSubstitution m b a [g] (c # u)"
    using assms(3) t d by simp
  then show ?thesis
    using getSubstitution_plain [OF assms(1)] t by simp
qed

lemma matches_nowhere_Cons:
  "matches_nowhere m (c # cs) \<longleftrightarrow> m (c # cs) = None \<and> matches_nowhere m cs"
proof
  assume a: "matches_nowhere m (c # cs)"
  have "m (drop 0 (c # cs)) = None" using a unfolding matches_nowhere_def by blast
  moreover have "m (drop i cs) = None" if "i < length cs" for i
    using a that unfolding matches_nowhere_def by (metis Suc_less_eq drop_Suc_Cons length_Cons)
  ultimately show "m (c # cs) = None \<and> matches_nowhere m cs"
    by (simp add: matches_nowhere_def)
next
  assume a: "m (c # cs) = None \<and> matches_nowhere m cs"
  show "matches_nowhere m (c # cs)"
    unfolding matches_nowhere_def
  proof (intro allI impI)
    fix i assume "i < length (c # cs)"
    then show "m (drop i (c # cs)) = None"
      using a by (cases i) (auto simp add: matches_nowhere_def)
  qed
qed

lemma replace_from_nowhere:
  "matches_nowhere m s \<Longrightarrow> replace_from m g t pre s = s"
  by (induction s arbitrary: pre) (simp_all add: matches_nowhere_Cons)

lemma replace_nowhere: "matches_nowhere m s \<Longrightarrow> replace m g t s = s"
  by (simp add: replace_def replace_from_nowhere)

lemma match_head_shape:
  assumes "match_head s = Some (n, caps)"
  shows "0 < n \<and> n \<le> length s \<and> caps = [take n s]"
  using assms by (auto simp add: match_head_def Let_def split: if_splits)

lemma replace_first_head:
  assumes "\<forall>i<length pre. match_head (drop i pre @ s) = None"
    and "match_head s = Some (n, caps)"
    and "CHR ''$'' \<notin> set t" "t \<noteq> []" "\<not> is_digit (hd t)"
  shows "replace_from match_head False (''$1'' @ t) b (pre @ s) = pre @ take n s @ t @ drop n s"
  using assms(1)
proof (induction pre arbitrary: b)
  case Nil
  obtain c cs where s: "s = c # cs"
    using match_head_shape [OF assms(2)] by (cases s) auto
  have n: "0 < n" "caps = [take n s]" using match_head_shape [OF assms(2)] by auto
  have "drop (n - 1) cs = drop n s" using n s by (cases n) auto
  then show ?case
    using assms(2) n s getSubstitution_group_1 [OF assms(3,4,5)] by simp
next
  case (Cons c pre)
  have h: "match_head (c # pre @ s) = None"
    using Cons.prems by (metis append_Cons drop0 length_Cons zero_less_Suc)
  have r: "\<forall>i<length pre. match_head (drop i pre @ s) = None"
  proof (intro allI impI)
    fix i assume "i < length pre"
    then have "match_head (drop (Suc i) (c # pre) @ s) = None"
      using Cons.prems by (metis Suc_less_eq length_Cons)
    then show "match_head (drop i pre @ s) = None" by simp
  qed
  show ?case
    using Cons.IH [OF r] h by simp
qed


lemma base_element_plain:
  assumes "CHR ''$'' \<notin> set tunnelId"
  shows "CHR ''$'' \<notin> set (base_element tunnelId)" "base_element tunnelId \<noteq> []"
    "\<not> is_digit (hd (base_element tunnelId))"
  using assms by (simp_all add: base_element_def newline_def dquote_def is_digit_def code_def)

lemma head_template:
  "''$1'' @ [newline] @ ''  <base href='' @ [dquote] @ (''/t/'' @ tunnelId) @ ''/'' @ [dquote] @ ''>''
   = ''$1'' @ base_element tunnelId"
  by (simp add: base_element_def)

text \<open>
  What the rewriter does when nothing in the body is a reference.
  When no attribute reference and no \<^verbatim>\<open>url(\<close> reference matches anywhere in the body,
  and the tunnel id has no \<^verbatim>\<open>$\<close>, the first two replacements change nothing: the
  output is the input if no tag matches \<^verbatim>\<open><head[^>]*>\<close>, and otherwise the input with
  the \<^verbatim>\<open>base\<close> element right behind the first such tag.
\<close>

lemma rewriteHtml_without_references:
  assumes a: "matches_nowhere match_attr html" and u: "matches_nowhere match_url html"
    and d: "CHR ''$'' \<notin> set tunnelId"
  shows "(matches_nowhere match_head html \<longrightarrow> rewriteHtml html tunnelId = html)
         \<and> (html = pre @ s \<and> (\<forall>i<length pre. match_head (drop i pre @ s) = None)
              \<and> match_head s = Some (n, caps) \<longrightarrow>
              rewriteHtml html tunnelId = pre @ take n s @ base_element tunnelId @ drop n s)"
proof -
  have r: "rewriteHtml html tunnelId
           = replace_from match_head False (''$1'' @ base_element tunnelId) [] html"
    unfolding rewriteHtml_def Let_def replace_nowhere [OF a] replace_nowhere [OF u] head_template
    by (simp add: replace_def)
  show ?thesis
    unfolding r
    using replace_from_nowhere [of match_head html]
      replace_first_head [of pre s n caps "base_element tunnelId", OF _ _ base_element_plain [OF d]]
    by blast
qed

lemma match_attr_shape:
  assumes m: "match_attr s = Some (n, caps)"
  shows "3 \<le> n \<and> n \<le> length s \<and> caps = [take (n - 1) s] \<and> \<not> startsWith (drop n s) ''/''"
proof -
  obtain k where k: "attr_name_length s = Some k"
    using m by (cases "attr_name_length s") (simp_all add: match_attr_def)
  obtain e q sl rest where dr: "drop k s = e # q # sl # rest"
    using m k by (auto simp add: match_attr_def split: list.splits)
  have v: "n = k + 3" "caps = [take (k + 2) s]" "\<not> startsWith rest ''/''"
    using m k dr by (simp_all add: match_attr_def split: if_splits)
  have "length (drop k s) = 3 + length rest" using dr by simp
  then have l: "k + 3 \<le> length s" by simp
  have "drop 3 (drop k s) = rest" using dr by simp
  then have "drop n s = rest" using v(1) by (simp add: add.commute)
  then show ?thesis using v l by simp
qed


lemma match_url_shape:
  assumes m: "match_url s = Some (n, caps)"
  shows "(n = 5 \<or> n = 6) \<and> n \<le> length s \<and> caps = [] \<and> take 4 s = ''url(''
         \<and> \<not> startsWith (drop n s) ''/''"
proof -
  let ?k = "if startsWith (drop 4 s) [dquote] \<or> startsWith (drop 4 s) [squote] then 1 else 0 :: nat"
  have p: "startsWith s ''url(''"
    using m by (simp add: match_url_def split: if_splits)
  obtain sl rest where dr: "drop (4 + ?k) s = sl # rest"
    using m p by (cases "drop (4 + ?k) s") (simp_all add: match_url_def Let_def)
  have v: "n = 5 + ?k" "caps = []" "\<not> startsWith rest ''/''"
    using m p dr by (simp_all add: match_url_def Let_def split: if_splits)
  have "length (drop (4 + ?k) s) = 1 + length rest" using dr by simp
  then have l: "5 + ?k \<le> length s" by simp
  have "drop 1 (drop (4 + ?k) s) = rest" using dr by simp
  then have "drop n s = rest" using v(1) by (simp add: add.commute)
  moreover have "take 4 s = ''url(''"
    using p by (simp add: startsWith_def eval_nat_numeral)
  ultimately show ?thesis
    using v l by auto
qed

text \<open>
  One step of the first two replacements at a match, for a tunnel id without \<^verbatim>\<open>$\<close>:
  the first keeps its match (attribute name, \<^verbatim>\<open>=\<close>, quote) and puts the prefix before
  the slash; the second writes \<^verbatim>\<open>url(\<close>, the prefix and the slash in place of its
  whole match, which drops a quote the match contained. In both cases the character
  behind the match is not a second slash.
\<close>

lemma attr_step:
  assumes m: "match_attr s = Some (n, caps)" and d: "CHR ''$'' \<notin> set tunnelId"
  shows "replace_from match_attr True (''$1'' @ (''/t/'' @ tunnelId) @ ''/'') b s
         = take (n - 1) s @ ''/t/'' @ tunnelId @ ''/''
           @ replace_from match_attr True (''$1'' @ (''/t/'' @ tunnelId) @ ''/'') (b @ take n s) (drop n s)"
proof -
  have n: "3 \<le> n" "caps = [take (n - 1) s]" "n \<le> length s"
    using match_attr_shape [OF m] by auto
  obtain c cs where s: "s = c # cs" using n by (cases s) auto
  have t: "CHR ''$'' \<notin> set (''/t/'' @ tunnelId @ ''/'')" using d by simp
  have g: "getSubstitution (take n s) b (drop n s) [take (n - 1) s] (''$1'' @ (''/t/'' @ tunnelId @ ''/''))
           = take (n - 1) s @ ''/t/'' @ tunnelId @ ''/''"
    by (rule getSubstitution_group_1 [OF t]) (simp_all add: is_digit_def code_def)
  have e: "drop (n - 1) cs = drop n s" using n s by (cases n) auto
  have "replace_from match_attr True (''$1'' @ (''/t/'' @ tunnelId) @ ''/'') b (c # cs)
        = getSubstitution (take n (c # cs)) b (drop n (c # cs)) caps (''$1'' @ (''/t/'' @ tunnelId) @ ''/'')
          @ replace_from match_attr True (''$1'' @ (''/t/'' @ tunnelId) @ ''/'') (b @ take n (c # cs))
              (drop (n - 1) cs)"
    using m n(1) s by (simp del: getSubstitution.simps)
  then show ?thesis
    using g e n(2) s by simp
qed

lemma url_step:
  assumes m: "match_url s = Some (n, caps)" and d: "CHR ''$'' \<notin> set tunnelId"
  shows "replace_from match_url True (''url('' @ (''/t/'' @ tunnelId) @ ''/'') b s
         = ''url(/t/'' @ tunnelId @ ''/''
           @ replace_from match_url True (''url('' @ (''/t/'' @ tunnelId) @ ''/'') (b @ take n s) (drop n s)"
proof -
  have n: "0 < n" "n \<le> length s"
    using match_url_shape [OF m] by auto
  obtain c cs where s: "s = c # cs" using n by (cases s) auto
  have t: "CHR ''$'' \<notin> set (''url('' @ (''/t/'' @ tunnelId) @ ''/'')" using d by simp
  have e: "drop (n - 1) cs = drop n s" using n s by (cases n) auto
  have "replace_from match_url True (''url('' @ (''/t/'' @ tunnelId) @ ''/'') b (c # cs)
        = getSubstitution (take n (c # cs)) b (drop n (c # cs)) caps (''url('' @ (''/t/'' @ tunnelId) @ ''/'')
          @ replace_from match_url True (''url('' @ (''/t/'' @ tunnelId) @ ''/'') (b @ take n (c # cs))
              (drop (n - 1) cs)"
    using m n(1) s by (simp del: getSubstitution.simps)
  then show ?thesis
    using getSubstitution_plain [OF t] e s by simp
qed



text \<open>
  What the rewriter does where the source plainly means it to: an attribute value and
  an unquoted \<^verbatim>\<open>url(/...)\<close> get the prefix, a protocol-relative value is left alone, and
  the \<^verbatim>\<open>base\<close> element follows \<^verbatim>\<open><head>\<close>.
\<close>

lemma rewriteHtml_examples:
  \<open>rewriteHtml ''<head><script src="/app.js"></script><img src="//cdn.example/x.png"></head>''
       ''abc123''
     = ''<head>'' @ [newline] @ ''  <base href="/t/abc123/"><script src="/t/abc123/app.js"></script><img src="//cdn.example/x.png"></head>''
   \<and> rewriteHtml ''<p style="background:url(/img/bg.png)">'' ''abc123''
     = ''<p style="background:url(/t/abc123/img/bg.png)">''\<close>
  by code_simp

text \<open>
  Claim C5, where the code departs from it. (1) A style sheet refers to
  \<^verbatim>\<open>url("/img/bg.png")\<close>: the second replacement matches \<^verbatim>\<open>url("/\<close>, quote included, and
  puts \<^verbatim>\<open>url(/t/abc123/\<close> in its place, so the path is prefixed but the opening quote is
  gone while the closing one stays. (2) A body has no \<^verbatim>\<open><head>\<close> but a \<^verbatim>\<open><header>\<close>:
  the third expression, \<^verbatim>\<open><head[^>]*>\<close>, matches that tag, and the \<^verbatim>\<open>base\<close> element
  lands inside the page's header. (3) The tunnel id is \<^verbatim>\<open>a$&b\<close>: it is spliced into the
  replacement template, where \<^verbatim>\<open>$&\<close> stands for the matched text, so what is put before
  the path is not \<^verbatim>\<open>/t/a$&b\<close>.
\<close>

theorem rewriteHtml_departures:
  \<open>rewriteHtml ''<style>body{background:url("/img/bg.png")}</style>'' ''abc123''
     = ''<style>body{background:url(/t/abc123/img/bg.png")}</style>''
   \<and> rewriteHtml ''<body><header class="top">Hi</header></body>'' ''abc123''
     = ''<body><header class="top">'' @ [newline] @ ''  <base href="/t/abc123/">Hi</header></body>''
   \<and> rewriteHtml ''<a href="/x">'' ''a$&b'' = ''<a href="/t/ahref="/b/x">''\<close>
  by code_simp

subsection \<open>Reconnect delay: lemmas\<close>

lemma failures_shouldReconnect:
  "shouldReconnect (failures n l) = shouldReconnect l"
  by (induction n arbitrary: l) (simp_all add: on_close_def)

lemma min_cap_step:
  fixes a :: rat
  shows "min (min a 15000 * (3 / 2)) 15000 = min (a * (3 / 2)) 15000"
  by (simp add: min_def)

lemma failures_delay:
  "shouldReconnect l \<Longrightarrow> reconnectDelay l = min d 15000 \<Longrightarrow>
   reconnectDelay (failures n l) = min (d * (3 / 2) ^ n) 15000"
proof (induction n arbitrary: l d)
  case 0
  then show ?case by simp
next
  case (Suc n)
  have a: "shouldReconnect (on_close l)"
    using Suc.prems(1) by (simp add: on_close_def)
  have b: "reconnectDelay (on_close l) = min (d * (3 / 2)) 15000"
    using Suc.prems by (simp add: on_close_def min_cap_step)
  show ?case
    using Suc.IH [OF a b] by (simp add: mult.assoc)
qed

lemma failures_scheduled:
  "shouldReconnect l \<Longrightarrow> reconnectDelay l = min d 15000 \<Longrightarrow>
   scheduled (failures n l) =
     scheduled l @ map (\<lambda>k. min (d * (3 / 2) ^ k) 15000) [0..<n]"
proof (induction n arbitrary: l d)
  case 0
  then show ?case by simp
next
  case (Suc n)
  have a: "shouldReconnect (on_close l)"
    using Suc.prems(1) by (simp add: on_close_def)
  have b: "reconnectDelay (on_close l) = min (d * (3 / 2)) 15000"
    using Suc.prems by (simp add: on_close_def min_cap_step)
  have c: "scheduled (on_close l) = scheduled l @ [min d 15000]"
    using Suc.prems by (simp add: on_close_def)
  have d: "map (\<lambda>k. min (d * (3 / 2) ^ k) 15000) [0..<Suc n] =
           min d 15000 # map (\<lambda>k. min (d * (3 / 2) * (3 / 2) ^ k) 15000) [0..<n]"
    by (simp add: upt_conv_Cons map_Suc_upt [symmetric] mult.assoc del: upt_Suc)
  show ?case
    using Suc.IH [OF a b] c d by simp
qed

text \<open>
  Claim C7. The reconnect delay starts at the floor of 2000 ms; every close of the
  connection schedules the reconnect with the current delay and then multiplies the
  delay by 1.5, capped at 15000 ms; so \<open>n\<close> failures in a row from the start use the
  delays \<open>min (2000 * 1.5 ^ k) 15000\<close> for \<open>k < n\<close>, that is 2000, 3000, 4500, 6750,
  10125, 15000, 15000, ...; and every successful open resets the delay to the floor.
\<close>

theorem reconnect_backoff:
  "reconnectDelay lifecycle_init = 2000
   \<and> scheduled (failures n lifecycle_init) = map (\<lambda>k. min (2000 * (3 / 2) ^ k) 15000) [0..<n]
   \<and> reconnectDelay (failures n lifecycle_init) = min (2000 * (3 / 2) ^ n) 15000
   \<and> scheduled (failures 7 lifecycle_init) = [2000, 3000, 4500, 6750, 10125, 15000, 15000]
   \<and> reconnectDelay (on_close (l\<lparr>shouldReconnect := True\<rparr>))
       = min (reconnectDelay l * (3 / 2)) 15000
   \<and> reconnectDelay (on_close (l\<lparr>shouldReconnect := True\<rparr>)) \<le> 15000
   \<and> reconnectDelay (on_open l) = 2000"
proof -
  have i: "shouldReconnect lifecycle_init"
    by (simp add: lifecycle_init_def)
  have j: "reconnectDelay lifecycle_init = min 2000 15000"
    by (simp add: lifecycle_init_def)
  have s: "scheduled (failures n lifecycle_init) =
           map (\<lambda>k. min (2000 * (3 / 2) ^ k) 15000) [0..<n]" for n
    using failures_scheduled [OF i j, of n] by (simp add: lifecycle_init_def)
  have seven: "[0..<7] = [0, 1, 2, 3, 4, 5, 6::nat]"
    by (simp add: upt_rec)
  have s7: "scheduled (failures 7 lifecycle_init) =
            [2000, 3000, 4500, 6750, 10125, 15000, 15000]"
    unfolding s seven by (simp add: power_numeral_reduce)
  show ?thesis
    using s [of n] s7 failures_delay [OF i j, of n]
    by (simp add: lifecycle_init_def on_close_def on_open_def)
qed

end
